theory Spec2Isabelle
  imports Complex_Main
begin

section \<open>Crypto Runner: the canvas simulator and the host application\<close>

text \<open>
  The game lives in two TypeScript components.  \<^verbatim>\<open>CryptoRunnerCanvas\<close> holds the
  simulation in React refs (player, obstacles, particles, score, spawn timer,
  difficulty, fall speed) and mutates them from \<^verbatim>\<open>initGame\<close>, \<^verbatim>\<open>handleMove\<close> and
  \<^verbatim>\<open>update\<close>.  \<^verbatim>\<open>App\<close> holds the phase, the displayed score, the high score and
  the wallet hooks.

  The simulator computes with exact real numbers: \<open>+\<close>, \<open>*\<close>, \<open>/\<close>,
  \<^verbatim>\<open>Math.max\<close>, \<^verbatim>\<open>Math.min\<close> and \<^verbatim>\<open>Math.pow\<close> (with positive base, \<open>powr\<close>) are the
  operations of \<^typ>\<open>real\<close>, so it gives the geometry of a frame and not the last
  bits of its numbers.  Where a property depends on those bits (the bounds of a
  spawned obstacle, the running score, the easing of the player, the stored
  high score), the expressions of the source are evaluated in IEEE binary64,
  every operation rounded to the nearest double; see the subsection on binary64
  arithmetic.  \<^verbatim>\<open>Math.floor\<close> yields an \<^typ>\<open>int\<close>.  The refs become one
  record that every operation takes and returns.  The values returned by
  \<^verbatim>\<open>Math.random()\<close> inside the simulator are a parameter \<open>rnd\<close>: \<open>rnd k\<close> is the
  result of the \<open>k\<close>-th call, and the record counts the calls made so far.
  Callbacks to the host and triggered sounds are appended to a log.  Drawing
  and the star field only read the simulation and are not modelled.
\<close>

subsection \<open>Types of \<^verbatim>\<open>types.ts\<close>\<close>

datatype GameState = START | PLAYING | GAMEOVER

record Canvas =
  width :: nat
  height :: nat

record Particle =
  x :: real
  y :: real
  vx :: real
  vy :: real
  life :: real
  maxLife :: real
  color :: string
  psize :: real

record Obstacle =
  x :: real
  y :: real
  width :: real
  height :: real
  color :: string
  speed :: real

record Player =
  x :: real
  y :: real
  width :: real
  height :: real
  color :: string
  targetX :: real

datatype Dir = Left | Right

datatype Event =
    OnScoreUpdate int
  | OnGameOver int
  | MoveSound
  | ScoreSound
  | CrashSound

subsection \<open>The refs of \<^verbatim>\<open>CryptoRunnerCanvas\<close>\<close>

text \<open>
  \<open>canvas\<close> is \<^verbatim>\<open>canvasRef.current\<close> (\<open>None\<close> while unmounted) with its integer pixel
  size; \<open>audioCtx\<close> is \<^verbatim>\<open>audioCtxRef.current\<close>, reduced to its sample rate; \<open>rng\<close>
  counts the calls of \<^verbatim>\<open>Math.random()\<close>; \<open>events\<close> is the log of callbacks and sounds.
\<close>

record Sim =
  canvas :: "Canvas option"
  audioCtx :: "nat option"
  player :: Player
  obstacles :: "Obstacle list"
  particles :: "Particle list"
  score :: real
  spawnTimer :: real
  currentDifficulty :: real
  currentFallSpeed :: real
  rng :: nat
  events :: "Event list"

definition BASE_BLUE :: string where
  "BASE_BLUE = ''#0052FF''"

definition RED_VULN :: string where
  "RED_VULN = ''#FF4444''"

definition INITIAL_FALL_SPEED :: real where
  "INITIAL_FALL_SPEED = 4"

definition SPEED_INCREMENT :: real where
  "SPEED_INCREMENT = 15 / 100000"

text \<open>The initial values of the refs, before the component is mounted.\<close>

definition initialSim :: Sim where
  "initialSim =
     \<lparr>canvas = None, audioCtx = None,
      player = \<lparr>Player.x = 0, y = 0, width = 48, height = 48, color = BASE_BLUE, targetX = 0\<rparr>,
      obstacles = [], particles = [], score = 0, spawnTimer = 0,
      currentDifficulty = 1, currentFallSpeed = INITIAL_FALL_SPEED,
      rng = 0, events = []\<rparr>"

definition emit :: "Event \<Rightarrow> Sim \<Rightarrow> Sim" where
  "emit e s = s\<lparr>events := events s @ [e]\<rparr>"

subsection \<open>Sound helpers\<close>

text \<open>
  \<^verbatim>\<open>initAudio\<close> creates the context on first use; \<open>rate\<close> is the sample rate the
  browser gives it.  Each \<^verbatim>\<open>play...\<close> helper returns at once without a context.
  \<^verbatim>\<open>playCrashSound\<close> fills a noise buffer, one \<^verbatim>\<open>Math.random()\<close> per sample, for
  \<^verbatim>\<open>i = 0; i < sampleRate * 0.5; i++\<close>.
\<close>

definition initAudio :: "nat \<Rightarrow> Sim \<Rightarrow> Sim" where
  "initAudio rate s = (case audioCtx s of None \<Rightarrow> s\<lparr>audioCtx := Some rate\<rparr> | Some _ \<Rightarrow> s)"

definition playMoveSound :: "Sim \<Rightarrow> Sim" where
  "playMoveSound s = (case audioCtx s of None \<Rightarrow> s | Some _ \<Rightarrow> emit MoveSound s)"

definition playScoreSound :: "Sim \<Rightarrow> Sim" where
  "playScoreSound s = (case audioCtx s of None \<Rightarrow> s | Some _ \<Rightarrow> emit ScoreSound s)"

definition playCrashSound :: "Sim \<Rightarrow> Sim" where
  "playCrashSound s =
     (case audioCtx s of
        None \<Rightarrow> s
      | Some sampleRate \<Rightarrow> emit CrashSound (s\<lparr>rng := rng s + (sampleRate + 1) div 2\<rparr>))"

subsection \<open>\<^verbatim>\<open>initGame\<close> and the resize handler\<close>

definition initGame :: "Sim \<Rightarrow> Sim" where
  "initGame s =
     (case canvas s of
        None \<Rightarrow> s
      | Some c \<Rightarrow>
          let startX = real (Canvas.width c) / 2 - 24 in
          emit (OnScoreUpdate 0)
            (s\<lparr>player := \<lparr>Player.x = startX, y = real (Canvas.height c) - 240,
                           width = 48, height = 48, color = BASE_BLUE, targetX = startX\<rparr>,
               obstacles := [], particles := [], score := 0, spawnTimer := 0,
               currentDifficulty := 1, currentFallSpeed := INITIAL_FALL_SPEED\<rparr>))"

text \<open>\<open>resize w h\<close>: the window now measures \<open>w\<close> by \<open>h\<close> pixels.\<close>

definition resize :: "nat \<Rightarrow> nat \<Rightarrow> Sim \<Rightarrow> Sim" where
  "resize w h s =
     (case canvas s of
        None \<Rightarrow> s
      | Some _ \<Rightarrow> initGame (s\<lparr>canvas := Some \<lparr>Canvas.width = w, height = h\<rparr>\<rparr>))"

subsection \<open>\<^verbatim>\<open>createExplosion\<close>\<close>

text \<open>
  The loop \<^verbatim>\<open>for (i = 0; i < count; i++)\<close> pushes one particle per round and draws
  three random numbers for it (angle, speed, size); the first argument of
  \<open>explosionLoop\<close> is the number of rounds left.
\<close>

fun explosionLoop :: "nat \<Rightarrow> (nat \<Rightarrow> real) \<Rightarrow> real \<Rightarrow> real \<Rightarrow> string \<Rightarrow> Sim \<Rightarrow> Sim" where
  "explosionLoop 0 rnd px py col s = s"
| "explosionLoop (Suc n) rnd px py col s =
     (let angle = rnd (rng s) * pi * 2;
          spd = 2 + rnd (rng s + 1) * 6;
          part = \<lparr>Particle.x = px, y = py, vx = cos angle * spd, vy = sin angle * spd,
                  life = 1, maxLife = 1, color = col, psize = 2 + rnd (rng s + 2) * 4\<rparr>
      in explosionLoop n rnd px py col
           (s\<lparr>particles := particles s @ [part], rng := rng s + 3\<rparr>))"

definition createExplosion :: "(nat \<Rightarrow> real) \<Rightarrow> real \<Rightarrow> real \<Rightarrow> string \<Rightarrow> Sim \<Rightarrow> Sim" where
  "createExplosion rnd px py col s = explosionLoop 25 rnd px py col (playCrashSound s)"

subsection \<open>\<^verbatim>\<open>handleMove\<close>\<close>

definition handleMove :: "GameState \<Rightarrow> nat \<Rightarrow> Dir \<Rightarrow> Sim \<Rightarrow> Sim" where
  "handleMove gameState rate dir s =
     (if gameState \<noteq> PLAYING then s
      else
        let s1 = initAudio rate s in
        case canvas s1 of
          None \<Rightarrow> s1
        | Some c \<Rightarrow>
            let laneWidth = real (Canvas.width c) / 4;
                p = player s1;
                p' = (case dir of
                        Left \<Rightarrow> p\<lparr>targetX := max 10 (targetX p - laneWidth)\<rparr>
                      | Right \<Rightarrow>
                          p\<lparr>targetX :=
                              min (real (Canvas.width c) - Player.width p - 10)
                                  (targetX p + laneWidth)\<rparr>)
            in playMoveSound (s1\<lparr>player := p'\<rparr>))"

subsection \<open>\<^verbatim>\<open>update\<close>\<close>

text \<open>The particle filter: every particle is moved and aged, then kept while its life is positive.\<close>

definition stepParticle :: "real \<Rightarrow> Particle \<Rightarrow> Particle" where
  "stepParticle dt p =
     p\<lparr>Particle.x := Particle.x p + vx p * (dt / 16.66),
       Particle.y := Particle.y p + vy p * (dt / 16.66),
       life := life p - 0.02 * (dt / 16.66)\<rparr>"

definition advanceParticles :: "real \<Rightarrow> Particle list \<Rightarrow> Particle list" where
  "advanceParticles dt ps = filter (\<lambda>p. life p > 0) (map (stepParticle dt) ps)"

text \<open>The easing of the player towards its target.\<close>

definition easePlayer :: "real \<Rightarrow> Player \<Rightarrow> Player" where
  "easePlayer dt p =
     (let dx = targetX p - Player.x p
      in p\<lparr>Player.x := Player.x p + dx * (1 - (0.001 :: real) powr (dt / 1000))\<rparr>)"

text \<open>
  The spawn block, entered when the timer has run out: three random numbers give
  width, position and speed jitter, in this order.
\<close>

definition spawnObstacle :: "(nat \<Rightarrow> real) \<Rightarrow> Canvas \<Rightarrow> Sim \<Rightarrow> Sim" where
  "spawnObstacle rnd c s =
     (let w = 50 + rnd (rng s) * 80;
          ox = rnd (rng s + 1) * (real (Canvas.width c) - w);
          ob = \<lparr>Obstacle.x = ox, y = - 100, width = w, height = 45, color = RED_VULN,
                speed = currentFallSpeed s + rnd (rng s + 2) * 2.5\<rparr>
      in s\<lparr>obstacles := obstacles s @ [ob],
           spawnTimer := max 350 (1000 / currentDifficulty s),
           rng := rng s + 3\<rparr>)"

definition moveObstacle :: "real \<Rightarrow> Obstacle \<Rightarrow> Obstacle" where
  "moveObstacle dt ob = ob\<lparr>Obstacle.y := Obstacle.y ob + speed ob * (dt / 16.66)\<rparr>"

definition collides :: "Player \<Rightarrow> Obstacle \<Rightarrow> bool" where
  "collides p ob \<longleftrightarrow>
     Player.x p < Obstacle.x ob + Obstacle.width ob \<and>
     Player.x p + Player.width p > Obstacle.x ob \<and>
     Player.y p < Obstacle.y ob + Obstacle.height ob \<and>
     Player.y p + Player.height p > Obstacle.y ob"

text \<open>
  The obstacle filter.  The callback runs on the obstacles in array order and
  changes score, particles and log as it goes; the kept obstacles are returned
  and stored when the pass is over.
\<close>

fun sweepObstacles ::
  "(nat \<Rightarrow> real) \<Rightarrow> real \<Rightarrow> Canvas \<Rightarrow> Obstacle list \<Rightarrow> Sim \<Rightarrow> Obstacle list \<times> Sim" where
  "sweepObstacles rnd dt c [] s = ([], s)"
| "sweepObstacles rnd dt c (ob # rest) s =
     (let ob' = moveObstacle dt ob; p = player s in
      if collides p ob' then
        let s1 = createExplosion rnd (Player.x p + Player.width p / 2)
                   (Player.y p + Player.height p / 2) RED_VULN s;
            s2 = emit (OnGameOver \<lfloor>score s1\<rfloor>) s1
        in sweepObstacles rnd dt c rest s2
      else if Obstacle.y ob' > real (Canvas.height c) then
        let s1 = playScoreSound s;
            s2 = s1\<lparr>score := score s1 + 10\<rparr>;
            s3 = emit (OnScoreUpdate \<lfloor>score s2\<rfloor>) s2
        in sweepObstacles rnd dt c rest s3
      else
        let (kept, s') = sweepObstacles rnd dt c rest s in (ob' # kept, s'))"

definition update :: "GameState \<Rightarrow> (nat \<Rightarrow> real) \<Rightarrow> real \<Rightarrow> Sim \<Rightarrow> Sim" where
  "update gameState rnd dt s =
     (let s1 = s\<lparr>particles := advanceParticles dt (particles s)\<rparr> in
      if gameState \<noteq> PLAYING then s1
      else
        case canvas s1 of
          None \<Rightarrow> s1
        | Some c \<Rightarrow>
            let s2 = s1\<lparr>player := easePlayer dt (player s1)\<rparr>;
                s3 = s2\<lparr>currentFallSpeed := currentFallSpeed s2 + SPEED_INCREMENT * dt\<rparr>;
                s4 = s3\<lparr>currentDifficulty := currentDifficulty s3 + (SPEED_INCREMENT / 8) * dt\<rparr>;
                s5 = s4\<lparr>spawnTimer := spawnTimer s4 - dt\<rparr>;
                s6 = (if spawnTimer s5 \<le> 0 then spawnObstacle rnd c s5 else s5);
                (kept, s7) = sweepObstacles rnd dt c (obstacles s6) s6;
                s8 = s7\<lparr>obstacles := kept\<rparr>
            in s8\<lparr>score := score s8 + 0.015 * dt\<rparr>)"

subsection \<open>Running the simulator\<close>

text \<open>
  What reaches the simulator between two resets: a steering intent or an
  animation frame, each with the phase the host shows at that moment.
\<close>

datatype Input = Steer GameState Dir | Frame GameState real

fun applyInput :: "(nat \<Rightarrow> real) \<Rightarrow> nat \<Rightarrow> Sim \<Rightarrow> Input \<Rightarrow> Sim" where
  "applyInput rnd rate s (Steer g d) = handleMove g rate d s"
| "applyInput rnd rate s (Frame g dt) = update g rnd dt s"

definition runInputs :: "(nat \<Rightarrow> real) \<Rightarrow> nat \<Rightarrow> Input list \<Rightarrow> Sim \<Rightarrow> Sim" where
  "runInputs rnd rate ins s = foldl (applyInput rnd rate) s ins"

text \<open>A run of playing frames with the given elapsed times.\<close>

definition playFrames :: "(nat \<Rightarrow> real) \<Rightarrow> real list \<Rightarrow> Sim \<Rightarrow> Sim" where
  "playFrames rnd dts s = foldl (\<lambda>s dt. update PLAYING rnd dt s) s dts"

text \<open>Readings of the log.\<close>

fun isGameOver :: "Event \<Rightarrow> bool" where
  "isGameOver (OnGameOver _) = True"
| "isGameOver _ = False"

definition gameOverCalls :: "Event list \<Rightarrow> Event list" where
  "gameOverCalls es = filter isGameOver es"

fun isScoreUpdate :: "Event \<Rightarrow> bool" where
  "isScoreUpdate (OnScoreUpdate _) = True"
| "isScoreUpdate _ = False"

definition dodged :: "Sim \<Rightarrow> nat" where
  "dodged s = length (filter isScoreUpdate (events s))"

subsection \<open>Binary64 arithmetic\<close>

text \<open>
  A JavaScript number is an IEEE 754 binary64 value, and \<open>+\<close>, \<open>-\<close>, \<open>*\<close>, \<open>/\<close> return
  the exact result rounded to the nearest such value, a tie going to the even
  significand.  \<open>fl v\<close> is this rounding of the real number \<open>v\<close>.  \<open>expo v\<close> is the
  exponent of the binade of \<open>v\<close>, and at least \<open>-1022\<close>, below which the subnormal
  numbers keep one spacing; the doubles around \<open>v\<close> are the integer multiples of
  \<open>2 powi (expo v - 52)\<close>, and \<open>roundEven\<close> picks the nearest multiple.  Overflow to
  \<^verbatim>\<open>Infinity\<close>, which needs a result beyond \<open>1.7e308\<close>, is not modelled.
\<close>

definition roundEven :: "real \<Rightarrow> int" where
  "roundEven q =
     (let n = \<lfloor>q\<rfloor>; r = q - of_int n
      in if r < 1 / 2 then n else if 1 / 2 < r then n + 1 else if even n then n else n + 1)"

definition expo :: "real \<Rightarrow> int" where
  "expo v = max (- 1022) \<lfloor>log 2 \<bar>v\<bar>\<rfloor>"

definition fl :: "real \<Rightarrow> real" where
  "fl v = (if v = 0 then 0
           else of_int (roundEven (v / 2 powi (expo v - 52))) * 2 powi (expo v - 52))"



text \<open>
  The spawn block of \<^verbatim>\<open>update\<close> in binary64, for a result \<open>r\<close> of \<^verbatim>\<open>Math.random()\<close> and
  the current fall speed \<open>base\<close>: \<^verbatim>\<open>width = 50 + Math.random() * 80\<close>, the jitter
  \<^verbatim>\<open>Math.random() * 2.5\<close>, and \<^verbatim>\<open>speed: currentFallSpeedRef.current + (Math.random() * 2.5)\<close>.
\<close>

definition spawnWidth64 :: "real \<Rightarrow> real" where
  "spawnWidth64 r = fl (50 + fl (r * 80))"

definition spawnJitter64 :: "real \<Rightarrow> real" where
  "spawnJitter64 r = fl (r * (5 / 2))"

definition spawnSpeed64 :: "real \<Rightarrow> real \<Rightarrow> real" where
  "spawnSpeed64 base r = fl (base + spawnJitter64 r)"















subsection \<open>The host: \<^verbatim>\<open>App.tsx\<close>\<close>

text \<open>
  The state hooks of \<^verbatim>\<open>App\<close>, the two values it takes from the wallet hook
  (\<open>isConnected\<close>, \<open>address\<close>), and the browser's \<^verbatim>\<open>localStorage\<close> with a log of the
  calls made on it.  \<open>opened\<close> lists the views passed to the wallet modal's
  \<^verbatim>\<open>open\<close>.  A number held in state is an integer-valued double, \<^verbatim>\<open>NaN\<close> or an
  infinity, which is what \<^verbatim>\<open>parseInt\<close> can return (\<open>-0\<close> is not told from \<open>0\<close>).
\<close>

datatype Number = Num int | NaN | PosInfinity | NegInfinity

datatype StorageCall = GetItem string | SetItem string string

record App =
  gameState :: GameState
  balance :: "string option"
  score :: int
  highScore :: Number
  isConnected :: bool
  address :: "string option"
  localStorage :: "string \<rightharpoonup> string"
  storageLog :: "StorageCall list"
  opened :: "string list"

definition HIGHSCORE_KEY :: string where
  "HIGHSCORE_KEY = ''crypto-runner-highscore''"

text \<open>
  \<^verbatim>\<open>parseInt(s, 10)\<close>: leading white space is skipped, one sign is read, then the
  longest run of decimal digits; without a digit the result is \<^verbatim>\<open>NaN\<close>.  The
  digits denote a mathematical integer, and the result is the double nearest to
  it (\<open>toDouble\<close>): the integer itself up to \<open>2 ^ 53\<close>, a rounded value above, and
  an infinity from \<open>2 ^ 1024 - 2 ^ 970\<close> on.  Only the ASCII white space characters
  are recognised here, and every digit counts (ECMAScript allows an
  implementation to read the digits after the twentieth as zeros).
\<close>

definition isWhiteSpace :: "char \<Rightarrow> bool" where
  "isWhiteSpace ch \<longleftrightarrow> (of_char ch :: nat) \<in> {9, 10, 11, 12, 13, 32}"

definition isDigit :: "char \<Rightarrow> bool" where
  "isDigit ch \<longleftrightarrow> 48 \<le> (of_char ch :: nat) \<and> (of_char ch :: nat) \<le> 57"

definition digitsValue :: "string \<Rightarrow> nat" where
  "digitsValue ds = foldl (\<lambda>acc ch. 10 * acc + ((of_char ch :: nat) - 48)) 0 ds"

definition toDouble :: "int \<Rightarrow> Number" where
  "toDouble n =
     (if 2 ^ 1024 - 2 ^ 970 \<le> \<bar>n\<bar> then (if n < 0 then NegInfinity else PosInfinity)
      else Num \<lfloor>fl (of_int n)\<rfloor>)"

definition parseInt :: "string \<Rightarrow> Number" where
  "parseInt str =
     (let t = dropWhile isWhiteSpace str;
          (neg, u) = (case t of
                        [] \<Rightarrow> (False, t)
                      | ch # r \<Rightarrow>
                          if ch = CHR ''-'' then (True, r)
                          else if ch = CHR ''+'' then (False, r)
                          else (False, t));
          ds = takeWhile isDigit u
      in if ds = [] then NaN
         else toDouble ((if neg then - 1 else 1) * int (digitsValue ds)))"

text \<open>
  \<^verbatim>\<open>n.toString()\<close> of an integer: its decimal digits, after a minus sign when
  negative.  (JavaScript prints exponent notation from \<open>10 ^ 21\<close> on.)
\<close>

fun natString :: "nat \<Rightarrow> string" where
  "natString n =
     (if n < 10 then [char_of (48 + n)]
      else natString (n div 10) @ [char_of (48 + n mod 10)])"

declare natString.simps [simp del]

definition toString :: "int \<Rightarrow> string" where
  "toString n = (if n < 0 then CHR ''-'' # natString (nat (- n)) else natString (nat n))"

text \<open>
  The comparison \<^verbatim>\<open>finalScore > highScore\<close>; it is false against \<^verbatim>\<open>NaN\<close> and
  against \<^verbatim>\<open>Infinity\<close>.
\<close>

fun exceeds :: "int \<Rightarrow> Number \<Rightarrow> bool" where
  "exceeds n (Num h) = (n > h)"
| "exceeds n NaN = False"
| "exceeds n PosInfinity = False"
| "exceeds n NegInfinity = True"

text \<open>The component as first rendered, in a browser with the given storage and wallet.\<close>

definition initialApp :: "(string \<rightharpoonup> string) \<Rightarrow> bool \<Rightarrow> string option \<Rightarrow> App" where
  "initialApp store conn addr =
     \<lparr>gameState = START, balance = None, score = 0, highScore = Num 0,
      isConnected = conn, address = addr, localStorage = store,
      storageLog = [], opened = []\<rparr>"

text \<open>The mount effect (\<^verbatim>\<open>useEffect(..., [])\<close>): an empty string is falsy and is ignored.\<close>

definition loadHighScore :: "App \<Rightarrow> App" where
  "loadHighScore a =
     (let a1 = a\<lparr>storageLog := storageLog a @ [GetItem HIGHSCORE_KEY]\<rparr> in
      case localStorage a HIGHSCORE_KEY of
        None \<Rightarrow> a1
      | Some saved \<Rightarrow> if saved = [] then a1 else a1\<lparr>highScore := parseInt saved\<rparr>)"

definition startGame :: "App \<Rightarrow> App" where
  "startGame a =
     (if \<not> isConnected a then a\<lparr>opened := opened a @ [''Connect'']\<rparr>
      else a\<lparr>App.score := 0, gameState := PLAYING\<rparr>)"

definition handleGameOver :: "int \<Rightarrow> App \<Rightarrow> App" where
  "handleGameOver finalScore a =
     (let a1 = a\<lparr>App.score := finalScore\<rparr>;
          a2 = (if exceeds finalScore (highScore a)
                then a1\<lparr>highScore := Num finalScore,
                        localStorage := (localStorage a1)(HIGHSCORE_KEY \<mapsto> toString finalScore),
                        storageLog := storageLog a1 @ [SetItem HIGHSCORE_KEY (toString finalScore)]\<rparr>
                else a1)
      in a2\<lparr>gameState := GAMEOVER\<rparr>)"

definition setScore :: "int \<Rightarrow> App \<Rightarrow> App" where
  "setScore n a = a\<lparr>App.score := n\<rparr>"

definition disconnectWallet :: "App \<Rightarrow> App" where
  "disconnectWallet a = a\<lparr>isConnected := False, address := None, balance := None\<rparr>"

text \<open>
  What can happen to the mounted component: its buttons and callbacks, and the
  wallet hook reporting a new connection state.
\<close>

datatype AppAction =
    StartGame
  | HandleGameOver int
  | SetScore int
  | Disconnect
  | Wallet bool "string option"

fun appStep :: "App \<Rightarrow> AppAction \<Rightarrow> App" where
  "appStep a StartGame = startGame a"
| "appStep a (HandleGameOver n) = handleGameOver n a"
| "appStep a (SetScore n) = setScore n a"
| "appStep a Disconnect = disconnectWallet a"
| "appStep a (Wallet conn addr) = a\<lparr>isConnected := conn, address := addr\<rparr>"

definition runApp :: "AppAction list \<Rightarrow> App \<Rightarrow> App" where
  "runApp acts a = foldl appStep a acts"

fun isGetItem :: "StorageCall \<Rightarrow> bool" where
  "isGetItem (GetItem _) = True"
| "isGetItem (SetItem _ _) = False"

subsection \<open>Auxiliary functions for the statements\<close>

text \<open>
  The particles that \<open>n\<close> rounds of the explosion loop push when the next random
  number has index \<open>k\<close>.
\<close>

fun burst :: "nat \<Rightarrow> (nat \<Rightarrow> real) \<Rightarrow> nat \<Rightarrow> real \<Rightarrow> real \<Rightarrow> string \<Rightarrow> Particle list" where
  "burst 0 rnd k px py col = []"
| "burst (Suc n) rnd k px py col =
     \<lparr>Particle.x = px, y = py,
      vx = cos (rnd k * pi * 2) * (2 + rnd (k + 1) * 6),
      vy = sin (rnd k * pi * 2) * (2 + rnd (k + 1) * 6),
      life = 1, maxLife = 1, color = col, psize = 2 + rnd (k + 2) * 4\<rparr>
     # burst n rnd (k + 3) px py col"

text \<open>
  The state in which the obstacle pass of a playing frame begins: particles
  advanced, player eased, speed and difficulty raised, timer counted down and,
  when it has run out, an obstacle spawned.
\<close>

definition beforeSweep :: "(nat \<Rightarrow> real) \<Rightarrow> Canvas \<Rightarrow> real \<Rightarrow> Sim \<Rightarrow> Sim" where
  "beforeSweep rnd c dt s =
     (let s5 = s\<lparr>particles := advanceParticles dt (particles s),
                  player := easePlayer dt (player s),
                  currentFallSpeed := currentFallSpeed s + SPEED_INCREMENT * dt,
                  currentDifficulty := currentDifficulty s + (SPEED_INCREMENT / 8) * dt,
                  spawnTimer := spawnTimer s - dt\<rparr>
      in if spawnTimer s5 \<le> 0 then spawnObstacle rnd c s5 else s5)"

text \<open>The obstacles as the pass of a playing frame tests them: spawned, then moved.\<close>

definition swept :: "(nat \<Rightarrow> real) \<Rightarrow> Canvas \<Rightarrow> real \<Rightarrow> Sim \<Rightarrow> Obstacle list" where
  "swept rnd c dt s = map (moveObstacle dt) (obstacles (beforeSweep rnd c dt s))"

text \<open>
  The two branches of the obstacle filter that change the state: the state after
  a collision has been handled, and after an obstacle has been counted as dodged.
\<close>

definition afterHit :: "(nat \<Rightarrow> real) \<Rightarrow> Sim \<Rightarrow> Sim" where
  "afterHit rnd s =
     emit (OnGameOver \<lfloor>Sim.score s\<rfloor>)
       (createExplosion rnd (Player.x (player s) + Player.width (player s) / 2)
          (Player.y (player s) + Player.height (player s) / 2) RED_VULN s)"

definition afterDodge :: "Sim \<Rightarrow> Sim" where
  "afterDodge s =
     emit (OnScoreUpdate \<lfloor>Sim.score s + 10\<rfloor>) ((playScoreSound s)\<lparr>Sim.score := Sim.score s + 10\<rparr>)"

text \<open>An obstacle, already moved, that misses the player and has left the canvas at the bottom.\<close>

definition passes :: "Canvas \<Rightarrow> Player \<Rightarrow> Obstacle \<Rightarrow> bool" where
  "passes c p ob \<longleftrightarrow> \<not> collides p ob \<and> Obstacle.y ob > real (Canvas.height c)"

text \<open>
  For a run of playing frames, whether each frame enters the spawn block: the
  test \<^verbatim>\<open>spawnTimerRef.current <= 0\<close> after the timer has been counted down.
\<close>

fun spawnFlags :: "(nat \<Rightarrow> real) \<Rightarrow> Sim \<Rightarrow> real list \<Rightarrow> bool list" where
  "spawnFlags rnd s [] = []"
| "spawnFlags rnd s (dt # dts) =
     (spawnTimer s - dt \<le> 0) # spawnFlags rnd (update PLAYING rnd dt s) dts"

text \<open>The player's box lies in the play width \<open>[10, canvasWidth - playerWidth - 10]\<close>.\<close>

definition inRange :: "Canvas \<Rightarrow> Player \<Rightarrow> bool" where
  "inRange c p \<longleftrightarrow>
     10 \<le> Player.x p \<and> Player.x p \<le> real (Canvas.width c) - Player.width p - 10"

text \<open>The same for the target, on the canvas \<open>c\<close> of the simulator, with the player 48 wide.\<close>

definition settled :: "Canvas \<Rightarrow> Sim \<Rightarrow> bool" where
  "settled c s \<longleftrightarrow>
     canvas s = Some c \<and> Player.width (player s) = 48 \<and> inRange c (player s) \<and>
     10 \<le> targetX (player s) \<and>
     targetX (player s) \<le> real (Canvas.width c) - Player.width (player s) - 10"

text \<open>A frame's elapsed time is not negative.\<close>

fun nonnegFrame :: "Input \<Rightarrow> bool" where
  "nonnegFrame (Frame g dt) = (0 \<le> dt)"
| "nonnegFrame (Steer g d) = True"

text \<open>
  The integers that binary64 holds exactly and unambiguously
  (\<^verbatim>\<open>Number.isSafeInteger\<close>), and the actions whose final score is one of them.
\<close>

definition isSafeInteger :: "int \<Rightarrow> bool" where
  "isSafeInteger n \<longleftrightarrow> \<bar>n\<bar> \<le> 2 ^ 53 - 1"

fun safeAction :: "AppAction \<Rightarrow> bool" where
  "safeAction (HandleGameOver n) = isSafeInteger n"
| "safeAction _ = True"

text \<open>The component mounted afresh on the storage that \<open>a\<close> leaves behind.\<close>

definition reload :: "App \<Rightarrow> App" where
  "reload a = loadHighScore (initialApp (localStorage a) (isConnected a) (address a))"

subsection \<open>Example states\<close>

text \<open>
  The component after mounting in a window of \<open>w\<close> by \<open>h\<close> pixels: the canvas
  element exists (300 by 150 by default) and the resize effect has run once.
\<close>

definition mounted :: "nat \<Rightarrow> nat \<Rightarrow> Sim" where
  "mounted w h = resize w h (initialSim\<lparr>canvas := Some \<lparr>Canvas.width = 300, height = 150\<rparr>\<rparr>)"

text \<open>Two particles of an explosion, one fresh and one about to expire, for the examples.\<close>

definition sparkA :: Particle where
  "sparkA = \<lparr>Particle.x = 400, y = 384, vx = 3, vy = - 4, life = 1, maxLife = 1,
              color = RED_VULN, psize = 4\<rparr>"

definition sparkB :: Particle where
  "sparkB = \<lparr>Particle.x = 420, y = 300, vx = - 2, vy = 5, life = 1 / 100, maxLife = 1,
              color = RED_VULN, psize = 3\<rparr>"

definition sparks :: Sim where
  "sparks = initialSim\<lparr>particles := [sparkA, sparkB]\<rparr>"

text \<open>Random sources for the examples: every draw 1/2, and the same with the fifth draw 0.\<close>

definition halves :: "nat \<Rightarrow> real" where
  "halves k = 1 / 2"

definition sideways :: "nat \<Rightarrow> real" where
  "sideways k = (if k = 4 then 0 else 1 / 2)"

text \<open>A fresh 800 by 600 game after a first playing frame of 16.66 ms.\<close>

definition afterFirst :: "(nat \<Rightarrow> real) \<Rightarrow> Sim" where
  "afterFirst rnd = update PLAYING rnd (833 / 50) (mounted 800 600)"

text \<open>A browser whose storage holds a best of 100.\<close>

definition bestOf100 :: "string \<rightharpoonup> string" where
  "bestOf100 = [HIGHSCORE_KEY \<mapsto> ''100'']"




section \<open>Properties\<close>

subsection \<open>Rounding to binary64\<close>

text \<open>
  Rounding is monotone, exact on the grid of its binade and on the integers up
  to \<open>2 ^ 53\<close>, idempotent, and loses at most the factor \<open>theta\<close> on a normal
  number.  \<open>fl_evalI\<close> evaluates it on a given number from the binade \<open>e\<close> and the
  rounded significand \<open>n\<close>.
\<close>

lemma roundEven_of_int [simp]: "roundEven (of_int n) = n"
  by (simp add: roundEven_def)

lemma roundEven_bounds: "\<lfloor>q\<rfloor> \<le> roundEven q" "roundEven q \<le> \<lfloor>q\<rfloor> + 1"
  by (simp_all add: roundEven_def Let_def)

lemma roundEven_mono: "q1 \<le> q2 \<Longrightarrow> roundEven q1 \<le> roundEven q2"
proof -
  assume le: "q1 \<le> q2"
  then have f: "\<lfloor>q1\<rfloor> \<le> \<lfloor>q2\<rfloor>" by (rule floor_mono)
  show ?thesis
  proof (cases "\<lfloor>q1\<rfloor> = \<lfloor>q2\<rfloor>")
    case True
    then show ?thesis using le by (auto simp add: roundEven_def Let_def)
  next
    case False
    with f have "\<lfloor>q1\<rfloor> + 1 \<le> \<lfloor>q2\<rfloor>" by simp
    then show ?thesis using roundEven_bounds(2)[of q1] roundEven_bounds(1)[of q2] by linarith
  qed
qed


lemma two_powi_pos [simp]: "0 < (2::real) powi k"
  by (simp add: power_int_def)

lemma floor_log2_iff:
  assumes "0 < v"
  shows "(\<lfloor>log 2 v\<rfloor> = k) = (2 powi k \<le> v \<and> v < 2 powi (k + 1))"
proof -
  have a: "(2::real) powr real_of_int k = 2 powi k" by (rule powr_real_of_int') simp_all
  have b: "(2::real) powr real_of_int (k + 1) = 2 powi (k + 1)"
    by (rule powr_real_of_int') simp_all
  show ?thesis using floor_log_eq_powr_iff[of v 2 k] assms unfolding a b by simp
qed

lemma roundEven_zero [simp]: "roundEven 0 = 0"
  by (simp add: roundEven_def)

lemma roundEven_numeral [simp]: "roundEven (numeral k) = numeral k"
  using roundEven_of_int[of "numeral k"] by simp


lemma shift_up: "(2::real) ^ n * 2 powi k = 2 powi (int n + k)"
  by (simp add: power_int_add)

lemma expo_ge: "- 1022 \<le> expo v"
  by (simp add: expo_def)

lemma expo_eq:
  assumes "2 powi e \<le> \<bar>v\<bar>" "\<bar>v\<bar> < 2 powi (e + 1)" "- 1022 \<le> e"
  shows "expo v = e"
proof -
  have pos: "0 < \<bar>v\<bar>" using assms(1) two_powi_pos[of e] by linarith
  have "\<lfloor>log 2 \<bar>v\<bar>\<rfloor> = e"
    using assms(1,2) pos by (simp add: floor_log2_iff)
  then show ?thesis using assms(3) by (simp add: expo_def)
qed

lemma below_next: "v \<noteq> 0 \<Longrightarrow> \<bar>v\<bar> < 2 powi (expo v + 1)"
proof -
  assume "v \<noteq> 0"
  then have pos: "0 < \<bar>v\<bar>" by simp
  define k where "k = \<lfloor>log 2 \<bar>v\<bar>\<rfloor>"
  have "\<lfloor>log 2 \<bar>v\<bar>\<rfloor> = k" by (simp add: k_def)
  then have "\<bar>v\<bar> < 2 powi (k + 1)"
    using pos by (simp add: floor_log2_iff)
  also have "\<dots> \<le> 2 powi (expo v + 1)"
    by (rule power_int_increasing) (simp_all add: expo_def k_def)
  finally show ?thesis .
qed

lemma above_binade: "v \<noteq> 0 \<Longrightarrow> expo v = - 1022 \<or> 2 powi (expo v) \<le> \<bar>v\<bar>"
proof -
  assume "v \<noteq> 0"
  then have pos: "0 < \<bar>v\<bar>" by simp
  define k where "k = \<lfloor>log 2 \<bar>v\<bar>\<rfloor>"
  have "\<lfloor>log 2 \<bar>v\<bar>\<rfloor> = k" by (simp add: k_def)
  then have "2 powi k \<le> \<bar>v\<bar>"
    using pos by (simp add: floor_log2_iff)
  then show ?thesis by (auto simp add: expo_def k_def max_def)
qed

lemma expo_mono: "0 < v \<Longrightarrow> v \<le> w \<Longrightarrow> expo v \<le> expo w"
proof -
  assume "0 < v" "v \<le> w"
  then have "log 2 \<bar>v\<bar> \<le> log 2 \<bar>w\<bar>" by simp
  then have "\<lfloor>log 2 \<bar>v\<bar>\<rfloor> \<le> \<lfloor>log 2 \<bar>w\<bar>\<rfloor>" by (rule floor_mono)
  then show ?thesis by (simp add: expo_def)
qed

lemma fl_eval:
  assumes "2 powi e \<le> \<bar>v\<bar>" "\<bar>v\<bar> < 2 powi (e + 1)" "- 1022 \<le> e"
  shows "fl v = of_int (roundEven (v / 2 powi (e - 52))) * 2 powi (e - 52)"
proof -
  have "0 < \<bar>v\<bar>" using assms(1) two_powi_pos[of e] by linarith
  then have "v \<noteq> 0" by simp
  then show ?thesis by (simp add: fl_def expo_eq[OF assms])
qed

lemma fl_zero [simp]: "fl 0 = 0"
  by (simp add: fl_def)

lemma roundEven_nonneg: "0 \<le> q \<Longrightarrow> 0 \<le> roundEven q"
  using roundEven_mono[of 0 q] by simp

lemma fl_nonneg: "0 \<le> v \<Longrightarrow> 0 \<le> fl v"
  by (simp add: fl_def roundEven_nonneg)

lemma scale53: "9007199254740992 * (2::real) powi (e - 52) = 2 powi (e + 1)"
proof -
  have "(2::real) powi (53 + (e - 52)) = 2 powi 53 * 2 powi (e - 52)"
    by (rule power_int_add) simp
  moreover have "53 + (e - 52) = e + 1" by simp
  ultimately show ?thesis by simp
qed

lemma scale52: "4503599627370496 * (2::real) powi (e - 52) = 2 powi e"
proof -
  have "(2::real) powi (52 + (e - 52)) = 2 powi 52 * 2 powi (e - 52)"
    by (rule power_int_add) simp
  moreover have "52 + (e - 52) = e" by simp
  ultimately show ?thesis by simp
qed

lemma unscale: "(2::real) powi a / 2 powi (e - 52) = 2 powi (a - e + 52)"
proof -
  have "(2::real) powi (a - (e - 52)) = 2 powi a / 2 powi (e - 52)"
    by (rule power_int_diff) simp
  moreover have "a - (e - 52) = a - e + 52" by simp
  ultimately show ?thesis by simp
qed

lemma fl_le_next:
  assumes "0 < v"
  shows "fl v \<le> 2 powi (expo v + 1)"
proof -
  let ?u = "(2::real) powi (expo v - 52)"
  have "v < 2 powi (expo v + 1)" using below_next[of v] assms by simp
  then have "v / ?u < 2 powi (expo v + 1) / ?u" by (simp add: divide_strict_right_mono)
  then have "v / ?u \<le> of_int 9007199254740992" by (simp add: unscale)
  then have "roundEven (v / ?u) \<le> roundEven (of_int 9007199254740992)" by (rule roundEven_mono)
  then have "roundEven (v / ?u) \<le> 9007199254740992" by (simp only: roundEven_of_int)
  then have "real_of_int (roundEven (v / ?u)) \<le> of_int 9007199254740992"
    by (simp only: of_int_le_iff)
  then have "real_of_int (roundEven (v / ?u)) * ?u \<le> of_int 9007199254740992 * ?u"
    by (rule mult_right_mono) simp
  also have "of_int 9007199254740992 * ?u = 2 powi (expo v + 1)" by (simp add: scale53)
  finally show ?thesis using assms by (simp add: fl_def)
qed

lemma fl_ge_binade:
  assumes "0 < v" "2 powi (expo v) \<le> v"
  shows "2 powi (expo v) \<le> fl v"
proof -
  let ?u = "(2::real) powi (expo v - 52)"
  have "2 powi (expo v) / ?u \<le> v / ?u" using assms(2) by (simp add: divide_right_mono)
  then have "of_int 4503599627370496 \<le> v / ?u" by (simp add: unscale)
  then have "roundEven (of_int 4503599627370496) \<le> roundEven (v / ?u)" by (rule roundEven_mono)
  then have "4503599627370496 \<le> roundEven (v / ?u)" by (simp only: roundEven_of_int)
  then have "of_int 4503599627370496 \<le> real_of_int (roundEven (v / ?u))"
    by (simp only: of_int_le_iff)
  then have m: "of_int 4503599627370496 * ?u \<le> real_of_int (roundEven (v / ?u)) * ?u"
    by (rule mult_right_mono) simp
  have "2 powi (expo v) = of_int 4503599627370496 * ?u" by (simp add: scale52)
  also note m
  finally show ?thesis using assms(1) by (simp add: fl_def)
qed

lemma fl_mono:
  assumes "0 \<le> v" "v \<le> w"
  shows "fl v \<le> fl w"
proof (cases "v = 0")
  case True
  then show ?thesis using assms fl_nonneg[of w] by simp
next
  case False
  then have v: "0 < v" and w: "0 < w" using assms by simp_all
  have e: "expo v \<le> expo w" using v assms(2) by (rule expo_mono)
  show ?thesis
  proof (cases "expo v = expo w")
    case True
    let ?u = "(2::real) powi (expo w - 52)"
    have "v / ?u \<le> w / ?u" using assms(2) by (simp add: divide_right_mono)
    then have "roundEven (v / ?u) \<le> roundEven (w / ?u)" by (rule roundEven_mono)
    then have "real_of_int (roundEven (v / ?u)) \<le> real_of_int (roundEven (w / ?u))"
      by (simp only: of_int_le_iff)
    then have "of_int (roundEven (v / ?u)) * ?u \<le> of_int (roundEven (w / ?u)) * ?u"
      by (rule mult_right_mono) simp
    then show ?thesis using v w True by (simp add: fl_def)
  next
    case False
    with e have lt: "expo v + 1 \<le> expo w" by simp
    then have "expo w \<noteq> - 1022" using expo_ge[of v] by linarith
    then have "2 powi (expo w) \<le> w" using above_binade[of w] w by auto
    then have "2 powi (expo w) \<le> fl w" using w fl_ge_binade by blast
    moreover have "fl v \<le> 2 powi (expo v + 1)" using v by (rule fl_le_next)
    moreover have "(2::real) powi (expo v + 1) \<le> 2 powi (expo w)"
      using lt by (intro power_int_increasing) simp_all
    ultimately show ?thesis by linarith
  qed
qed

text \<open>An integer multiple of a power of two not finer than the unit in the last place is kept.\<close>

lemma fl_grid:
  assumes "v = of_int m * 2 powi k" "expo v - 52 \<le> k"
  shows "fl v = v"
proof (cases "v = 0")
  case True
  then show ?thesis by simp
next
  case False
  define u :: real where "u = 2 powi (expo v - 52)"
  define j where "j = nat (k - (expo v - 52))"
  have upos: "0 < u" by (simp add: u_def)
  have k: "k = int j + (expo v - 52)" using assms(2) by (simp add: j_def)
  have pk: "(2::real) powi k = 2 ^ j * u"
    unfolding u_def by (subst k) (simp add: power_int_add)
  have "v = of_int (m * 2 ^ j) * u" by (simp add: assms(1) pk)
  then have q: "v / u = of_int (m * 2 ^ j)" using upos by simp
  have "roundEven (v / u) = m * 2 ^ j" unfolding q by (rule roundEven_of_int)
  then have "fl v = of_int (m * 2 ^ j) * u" using False by (simp add: fl_def u_def)
  also have "\<dots> = v" by (simp add: assms(1) pk)
  finally show ?thesis .
qed

lemma fl_of_int:
  assumes "\<bar>m\<bar> \<le> 9007199254740992"
  shows "fl (of_int m) = of_int m"
proof (cases "m = 0")
  case True
  then show ?thesis by simp
next
  case False
  let ?v = "real_of_int m"
  have nz: "?v \<noteq> 0" using False by simp
  have "expo ?v \<le> 53"
  proof (rule ccontr)
    assume "\<not> expo ?v \<le> 53"
    then have big: "54 \<le> expo ?v" by simp
    then have "expo ?v \<noteq> - 1022" by simp
    then have "2 powi (expo ?v) \<le> \<bar>?v\<bar>" using above_binade[OF nz] by simp
    moreover have "(2::real) powi 54 \<le> 2 powi (expo ?v)"
      using big by (intro power_int_increasing) simp_all
    moreover have "\<bar>?v\<bar> \<le> 9007199254740992"
    proof -
      have "real_of_int \<bar>m\<bar> \<le> real_of_int 9007199254740992"
        using assms by (simp only: of_int_le_iff)
      then show ?thesis by simp
    qed
    ultimately show False by simp
  qed
  show ?thesis
  proof (cases "expo ?v = 53")
    case True
    then have "expo ?v \<noteq> - 1022" by simp
    then have "2 powi (expo ?v) \<le> \<bar>?v\<bar>" using above_binade[OF nz] by simp
    then have "9007199254740992 \<le> \<bar>?v\<bar>" using True by simp
    moreover have "\<bar>?v\<bar> \<le> 9007199254740992"
    proof -
      have "real_of_int \<bar>m\<bar> \<le> real_of_int 9007199254740992"
        using assms by (simp only: of_int_le_iff)
      then show ?thesis by simp
    qed
    ultimately have "\<bar>?v\<bar> = 9007199254740992" by simp
    then have "\<bar>m\<bar> = 9007199254740992"
      by (metis of_int_abs of_int_eq_iff of_int_numeral)
    then have "m = 9007199254740992 \<or> m = - 9007199254740992" by linarith
    then have ev: "even m" by auto
    then obtain h where h: "m = 2 * h" by (auto elim: evenE)
    have "?v = of_int h * 2 powi 1" by (simp add: h)
    moreover have "expo ?v - 52 \<le> 1" using True by simp
    ultimately show ?thesis by (rule fl_grid)
  next
    case False
    with \<open>expo ?v \<le> 53\<close> have "expo ?v - 52 \<le> 0" by simp
    moreover have "?v = of_int m * 2 powi 0" by simp
    ultimately show ?thesis using fl_grid[of ?v m 0] by simp
  qed
qed


lemma fl_evalI:
  assumes "2 powi e \<le> \<bar>v\<bar>" "\<bar>v\<bar> < 2 powi (e + 1)" "- 1022 \<le> e"
    and "roundEven (v / 2 powi (e - 52)) = n" "w = of_int n * 2 powi (e - 52)"
  shows "fl v = w"
  using fl_eval[OF assms(1-3)] assms(4,5) by simp

lemma fl_numeral [simp]:
  "numeral k \<le> (9007199254740992::int) \<Longrightarrow> fl (numeral k) = numeral k"
  using fl_of_int[of "numeral k"] by simp

lemma fl_one [simp]: "fl 1 = 1"
  using fl_of_int[of 1] by simp














lemma fl_half: "fl (1 / 2) = 1 / 2"
  by (rule fl_evalI[where e = "- 1" and n = "4503599627370496"])
     (simp_all add: roundEven_def Let_def power_int_minus)

lemma below_one:
  assumes "fl r = r" "0 \<le> r" "r < 1"
  shows "r \<le> 9007199254740991 / 9007199254740992"
proof (cases "r < 1 / 2")
  case True
  then show ?thesis by simp
next
  case False
  then have lo: "2 powi (- 1) \<le> \<bar>r\<bar>" by simp
  have hi: "\<bar>r\<bar> < 2 powi (- 1 + 1)" using assms(2,3) by simp
  define n where "n = roundEven (r / 2 powi (- 1 - 52))"
  have "fl r = of_int n * 2 powi (- 1 - 52)"
    unfolding n_def by (rule fl_eval[OF lo hi]) simp
  then have r: "r = of_int n / 9007199254740992" using assms(1) by simp
  with assms(3) have "real_of_int n < 9007199254740992" by simp
  then have "n < 9007199254740992" by linarith
  then have "n \<le> 9007199254740991" by simp
  then have "real_of_int n \<le> 9007199254740991" by linarith
  then show ?thesis by (simp add: r)
qed

subsection \<open>What each stage leaves unchanged\<close>

lemma emit_fields [simp]:
  "canvas (emit e s) = canvas s" "audioCtx (emit e s) = audioCtx s"
  "player (emit e s) = player s" "obstacles (emit e s) = obstacles s"
  "particles (emit e s) = particles s" "Sim.score (emit e s) = Sim.score s"
  "spawnTimer (emit e s) = spawnTimer s" "currentDifficulty (emit e s) = currentDifficulty s"
  "currentFallSpeed (emit e s) = currentFallSpeed s" "rng (emit e s) = rng s"
  "events (emit e s) = events s @ [e]"
  by (simp_all add: emit_def)

lemma playScoreSound_fields [simp]:
  "canvas (playScoreSound s) = canvas s" "audioCtx (playScoreSound s) = audioCtx s"
  "player (playScoreSound s) = player s" "obstacles (playScoreSound s) = obstacles s"
  "particles (playScoreSound s) = particles s" "Sim.score (playScoreSound s) = Sim.score s"
  "spawnTimer (playScoreSound s) = spawnTimer s"
  "currentDifficulty (playScoreSound s) = currentDifficulty s"
  "currentFallSpeed (playScoreSound s) = currentFallSpeed s" "rng (playScoreSound s) = rng s"
  by (simp_all add: playScoreSound_def split: option.split)

lemma playCrashSound_fields [simp]:
  "canvas (playCrashSound s) = canvas s" "audioCtx (playCrashSound s) = audioCtx s"
  "player (playCrashSound s) = player s" "obstacles (playCrashSound s) = obstacles s"
  "particles (playCrashSound s) = particles s" "Sim.score (playCrashSound s) = Sim.score s"
  "spawnTimer (playCrashSound s) = spawnTimer s"
  "currentDifficulty (playCrashSound s) = currentDifficulty s"
  "currentFallSpeed (playCrashSound s) = currentFallSpeed s"
  by (simp_all add: playCrashSound_def split: option.split)

lemma length_burst [simp]: "length (burst n rnd k px py col) = n"
  by (induction n arbitrary: k) simp_all

lemma explosionLoop_eq:
  "explosionLoop n rnd px py col s =
     s\<lparr>particles := particles s @ burst n rnd (rng s) px py col, rng := rng s + 3 * n\<rparr>"
  by (induction n arbitrary: s) (simp_all add: Let_def)

lemma createExplosion_eq:
  "createExplosion rnd px py col s =
     (playCrashSound s)\<lparr>particles := particles s @ burst 25 rnd (rng (playCrashSound s)) px py col,
        rng := rng (playCrashSound s) + 75\<rparr>"
  by (simp add: createExplosion_def explosionLoop_eq playCrashSound_def emit_def split: option.split)

lemma createExplosion_fields [simp]:
  "canvas (createExplosion rnd px py col s) = canvas s"
  "audioCtx (createExplosion rnd px py col s) = audioCtx s"
  "player (createExplosion rnd px py col s) = player s"
  "obstacles (createExplosion rnd px py col s) = obstacles s"
  "Sim.score (createExplosion rnd px py col s) = Sim.score s"
  "spawnTimer (createExplosion rnd px py col s) = spawnTimer s"
  "currentDifficulty (createExplosion rnd px py col s) = currentDifficulty s"
  "currentFallSpeed (createExplosion rnd px py col s) = currentFallSpeed s"
  "events (createExplosion rnd px py col s) = events (playCrashSound s)"
  "particles (createExplosion rnd px py col s) =
     particles s @ burst 25 rnd (rng (playCrashSound s)) px py col"
  by (simp_all add: createExplosion_eq)

lemma playCrashSound_shape:
  "\<exists>r es. playCrashSound s = s\<lparr>rng := r, events := es\<rparr>"
proof (cases "audioCtx s")
  case None
  have "s = s\<lparr>rng := rng s, events := events s\<rparr>" by simp
  with None show ?thesis unfolding playCrashSound_def by (metis option.simps(4))
next
  case (Some a)
  then show ?thesis unfolding playCrashSound_def emit_def by (simp, blast)
qed

lemma playScoreSound_shape:
  "\<exists>es. playScoreSound s = s\<lparr>events := es\<rparr>"
proof (cases "audioCtx s")
  case None
  have "s = s\<lparr>events := events s\<rparr>" by simp
  with None show ?thesis unfolding playScoreSound_def by (metis option.simps(4))
next
  case (Some a)
  then show ?thesis unfolding playScoreSound_def emit_def by (simp, blast)
qed

lemma sweepObstacles_shape:
  "\<exists>ps sc r es. snd (sweepObstacles rnd dt c obs s) =
      s\<lparr>particles := ps, Sim.score := sc, rng := r, events := es\<rparr>"
proof (induction obs arbitrary: s)
  case Nil
  have "s = s\<lparr>particles := particles s, Sim.score := Sim.score s, rng := rng s, events := events s\<rparr>"
    by simp
  then show ?case by (metis sweepObstacles.simps(1) snd_conv)
next
  case (Cons ob rest)
  let ?ob = "moveObstacle dt ob"
  consider (hit) "collides (player s) ?ob"
    | (out) "\<not> collides (player s) ?ob" "Obstacle.y ?ob > real (Canvas.height c)"
    | (keep) "\<not> collides (player s) ?ob" "\<not> Obstacle.y ?ob > real (Canvas.height c)"
    by blast
  then show ?case
  proof cases
    case hit
    obtain r0 es0 where cr: "playCrashSound s = s\<lparr>rng := r0, events := es0\<rparr>"
      using playCrashSound_shape by blast
    define s2 where "s2 = emit (OnGameOver \<lfloor>Sim.score s\<rfloor>)
       (createExplosion rnd (Player.x (player s) + Player.width (player s) / 2)
          (Player.y (player s) + Player.height (player s) / 2) RED_VULN s)"
    obtain ps sc r es where ih: "snd (sweepObstacles rnd dt c rest s2) =
      s2\<lparr>particles := ps, Sim.score := sc, rng := r, events := es\<rparr>"
      using Cons.IH by blast
    have "snd (sweepObstacles rnd dt c (ob # rest) s) = snd (sweepObstacles rnd dt c rest s2)"
      using hit by (simp add: Let_def s2_def createExplosion_eq cr)
    also have "\<dots> = s\<lparr>particles := ps, Sim.score := sc, rng := r, events := es\<rparr>"
      unfolding ih by (simp add: s2_def createExplosion_eq cr emit_def)
    finally show ?thesis by blast
  next
    case out
    obtain es0 where sc: "playScoreSound s = s\<lparr>events := es0\<rparr>"
      using playScoreSound_shape by blast
    define s3 where "s3 = emit (OnScoreUpdate \<lfloor>Sim.score s + 10\<rfloor>)
       ((playScoreSound s)\<lparr>Sim.score := Sim.score s + 10\<rparr>)"
    obtain ps sc' r es where ih: "snd (sweepObstacles rnd dt c rest s3) =
      s3\<lparr>particles := ps, Sim.score := sc', rng := r, events := es\<rparr>"
      using Cons.IH by blast
    have "snd (sweepObstacles rnd dt c (ob # rest) s) = snd (sweepObstacles rnd dt c rest s3)"
      using out by (simp add: Let_def s3_def sc)
    also have "\<dots> = s\<lparr>particles := ps, Sim.score := sc', rng := r, events := es\<rparr>"
      unfolding ih by (simp add: s3_def sc emit_def)
    finally show ?thesis by blast
  next
    case keep
    have "snd (sweepObstacles rnd dt c (ob # rest) s) = snd (sweepObstacles rnd dt c rest s)"
      using keep by (simp add: Let_def split: prod.split)
    then show ?thesis using Cons.IH by simp
  qed
qed

lemma sweepObstacles_fields [simp]:
  "canvas (snd (sweepObstacles rnd dt c obs s)) = canvas s"
  "audioCtx (snd (sweepObstacles rnd dt c obs s)) = audioCtx s"
  "player (snd (sweepObstacles rnd dt c obs s)) = player s"
  "obstacles (snd (sweepObstacles rnd dt c obs s)) = obstacles s"
  "spawnTimer (snd (sweepObstacles rnd dt c obs s)) = spawnTimer s"
  "currentDifficulty (snd (sweepObstacles rnd dt c obs s)) = currentDifficulty s"
  "currentFallSpeed (snd (sweepObstacles rnd dt c obs s)) = currentFallSpeed s"
proof -
  obtain ps sc r es where "snd (sweepObstacles rnd dt c obs s) =
      s\<lparr>particles := ps, Sim.score := sc, rng := r, events := es\<rparr>"
    using sweepObstacles_shape by blast
  then show "canvas (snd (sweepObstacles rnd dt c obs s)) = canvas s"
  "audioCtx (snd (sweepObstacles rnd dt c obs s)) = audioCtx s"
  "player (snd (sweepObstacles rnd dt c obs s)) = player s"
  "obstacles (snd (sweepObstacles rnd dt c obs s)) = obstacles s"
  "spawnTimer (snd (sweepObstacles rnd dt c obs s)) = spawnTimer s"
  "currentDifficulty (snd (sweepObstacles rnd dt c obs s)) = currentDifficulty s"
  "currentFallSpeed (snd (sweepObstacles rnd dt c obs s)) = currentFallSpeed s"
    by simp_all
qed

text \<open>The stages of a playing frame before the obstacle pass.\<close>

lemma update_playing:
  "canvas s = Some c \<Longrightarrow>
   update PLAYING rnd dt s =
     (let s5 = s\<lparr>particles := advanceParticles dt (particles s),
                  player := easePlayer dt (player s),
                  currentFallSpeed := currentFallSpeed s + SPEED_INCREMENT * dt,
                  currentDifficulty := currentDifficulty s + (SPEED_INCREMENT / 8) * dt,
                  spawnTimer := spawnTimer s - dt\<rparr>;
          s6 = (if spawnTimer s - dt \<le> 0 then spawnObstacle rnd c s5 else s5);
          r = sweepObstacles rnd dt c (obstacles s6) s6
      in (snd r)\<lparr>obstacles := fst r, Sim.score := Sim.score (snd r) + 0.015 * dt\<rparr>)"
  by (simp add: update_def Let_def split: prod.split)

lemma update_idle:
  "g \<noteq> PLAYING \<or> canvas s = None \<Longrightarrow>
   update g rnd dt s = s\<lparr>particles := advanceParticles dt (particles s)\<rparr>"
  by (auto simp add: update_def Let_def)

lemma spawnObstacle_fields [simp]:
  "canvas (spawnObstacle rnd c s) = canvas s"
  "audioCtx (spawnObstacle rnd c s) = audioCtx s"
  "player (spawnObstacle rnd c s) = player s"
  "particles (spawnObstacle rnd c s) = particles s"
  "Sim.score (spawnObstacle rnd c s) = Sim.score s"
  "currentDifficulty (spawnObstacle rnd c s) = currentDifficulty s"
  "currentFallSpeed (spawnObstacle rnd c s) = currentFallSpeed s"
  "events (spawnObstacle rnd c s) = events s"
  by (simp_all add: spawnObstacle_def Let_def)

lemma update_canvas [simp]: "canvas (update g rnd dt s) = canvas s"
proof (cases "g = PLAYING \<and> canvas s \<noteq> None")
  case True
  then obtain c where "canvas s = Some c" by blast
  with True show ?thesis by (simp add: update_playing Let_def)
next
  case False
  then show ?thesis by (simp add: update_idle)
qed

lemma update_player:
  "player (update g rnd dt s) =
     (if g = PLAYING \<and> canvas s \<noteq> None then easePlayer dt (player s) else player s)"
proof (cases "g = PLAYING \<and> canvas s \<noteq> None")
  case True
  then obtain c where "canvas s = Some c" by blast
  then show ?thesis using True by (simp add: update_playing Let_def)
next
  case False
  then show ?thesis by (auto simp add: update_idle)
qed

lemma easePlayer_fields [simp]:
  "targetX (easePlayer dt p) = targetX p" "Player.width (easePlayer dt p) = Player.width p"
  "Player.y (easePlayer dt p) = Player.y p" "Player.height (easePlayer dt p) = Player.height p"
  by (simp_all add: easePlayer_def Let_def)

lemma easePlayer_x:
  "Player.x (easePlayer dt p) = targetX p - (targetX p - Player.x p) * (0.001 powr (dt / 1000))"
  by (simp add: easePlayer_def Let_def algebra_simps)

lemma easePlayer_add: "easePlayer dt2 (easePlayer dt1 p) = easePlayer (dt1 + dt2) p"
proof -
  have "Player.x (easePlayer dt2 (easePlayer dt1 p)) = Player.x (easePlayer (dt1 + dt2) p)"
    by (simp add: easePlayer_x add_divide_distrib powr_add)
  then show ?thesis by (simp add: easePlayer_def Let_def)
qed


subsection \<open>Easing of the player\<close>






























subsection \<open>The host: storage and start of a run\<close>

lemma appStep_reads:
  "filter isGetItem (storageLog (appStep a act)) = filter isGetItem (storageLog a)"
  by (cases act)
     (simp_all add: startGame_def handleGameOver_def setScore_def disconnectWallet_def Let_def)

lemma runApp_reads:
  "filter isGetItem (storageLog (runApp acts a)) = filter isGetItem (storageLog a)"
  unfolding runApp_def
  by (induction acts arbitrary: a) (simp_all add: appStep_reads)

lemma loadHighScore_log:
  "storageLog (loadHighScore a) = storageLog a @ [GetItem HIGHSCORE_KEY]"
  by (simp add: loadHighScore_def Let_def split: option.split)

lemma isDigit_char_of: "(d::nat) < 10 \<Longrightarrow> isDigit (char_of (48 + d))"
  by (simp add: isDigit_def)

lemma natString_digits: "\<forall>ch \<in> set (natString n). isDigit ch"
proof (induction n rule: natString.induct)
  case (1 n)
  show ?case
  proof (cases "n < 10")
    case True
    then show ?thesis by (subst natString.simps) (simp add: isDigit_char_of)
  next
    case False
    have "n mod 10 < 10" by simp
    with False 1 show ?thesis by (subst natString.simps) (simp add: isDigit_char_of)
  qed
qed

lemma natString_nonempty: "natString n \<noteq> []"
  by (subst natString.simps) simp

lemma digit_value: "(d::nat) < 10 \<Longrightarrow> (of_char (char_of (48 + d) :: char) :: nat) - 48 = d"
  by simp

lemma digitsValue_natString: "digitsValue (natString n) = n"
proof (induction n rule: natString.induct)
  case (1 n)
  show ?case
  proof (cases "n < 10")
    case True
    then show ?thesis by (subst natString.simps) (simp add: digitsValue_def)
  next
    case False
    have m: "n mod 10 < 10" by simp
    from False 1 have ih: "digitsValue (natString (n div 10)) = n div 10" by simp
    have "digitsValue (natString n) = 10 * digitsValue (natString (n div 10)) + n mod 10"
      using False m by (subst natString.simps) (simp add: digitsValue_def)
    then show ?thesis using ih by simp
  qed
qed

lemma natString_hd: "natString n = ch # r \<Longrightarrow> isDigit ch"
  using natString_digits[of n] by simp

lemma isDigit_not_special:
  "isDigit ch \<Longrightarrow> \<not> isWhiteSpace ch \<and> ch \<noteq> CHR ''-'' \<and> ch \<noteq> CHR ''+''"
  by (auto simp add: isDigit_def isWhiteSpace_def)

lemma takeWhile_natString: "takeWhile isDigit (natString n) = natString n"
  using natString_digits[of n] by (simp add: takeWhile_eq_all_conv)

lemma parseInt_digits:
  assumes ne: "t \<noteq> []" and ds: "\<forall>ch \<in> set t. isDigit ch"
  shows "parseInt t = toDouble (int (digitsValue t))"
proof -
  obtain ch r where t: "t = ch # r" using ne by (cases t) auto
  with ds have d: "isDigit ch" by simp
  have dw: "dropWhile isWhiteSpace t = t"
    using isDigit_not_special[OF d] by (simp add: t)
  have sg: "(case t of [] \<Rightarrow> (False, t)
             | ch # r \<Rightarrow> if ch = CHR ''-'' then (True, r)
                         else if ch = CHR ''+'' then (False, r) else (False, t)) = (False, t)"
    using isDigit_not_special[OF d] by (simp add: t)
  have tw: "takeWhile isDigit t = t"
    using ds by (simp add: takeWhile_eq_all_conv)
  show ?thesis
    unfolding parseInt_def dw Let_def sg using ne by (simp add: tw)
qed

lemma toDouble_safe: "isSafeInteger n \<Longrightarrow> toDouble n = Num n"
proof -
  assume "isSafeInteger n"
  then have n: "\<bar>n\<bar> \<le> 9007199254740992" by (simp add: isSafeInteger_def)
  then have big: "\<not> 2 ^ 1024 - 2 ^ 970 \<le> \<bar>n\<bar>" by simp
  have "fl (of_int n) = of_int n" by (rule fl_of_int[OF n])
  then show ?thesis using big by (simp add: toDouble_def)
qed

lemma parseInt_natString:
  "isSafeInteger (int n) \<Longrightarrow> parseInt (natString n) = Num (int n)"
  using parseInt_digits[OF natString_nonempty natString_digits, of n]
  by (simp add: digitsValue_natString toDouble_safe)

lemma parseInt_toString:
  assumes "isSafeInteger n"
  shows "parseInt (toString n) = Num n"
proof (cases "n < 0")
  case True
  have tw: "takeWhile isDigit (natString (nat (- n))) = natString (nat (- n))"
    by (rule takeWhile_natString)
  have ws: "\<not> isWhiteSpace CHR ''-''" by (simp add: isWhiteSpace_def)
  have "- int (nat (- n)) = n" using True by simp
  then have td: "toDouble (- int (digitsValue (natString (nat (- n))))) = Num n"
    using toDouble_safe[OF assms] by (simp add: digitsValue_natString)
  show ?thesis
    using True ws natString_nonempty[of "nat (- n)"] td
    by (simp add: parseInt_def toString_def Let_def tw)
next
  case False
  then have "isSafeInteger (int (nat n))" using assms by simp
  then show ?thesis using False by (simp add: toString_def parseInt_natString)
qed

lemma toString_nonempty: "toString n \<noteq> []"
  by (simp add: toString_def natString_nonempty)

lemma loadHighScore_highScore:
  "highScore (loadHighScore a) =
     (case localStorage a HIGHSCORE_KEY of
        None \<Rightarrow> highScore a
      | Some saved \<Rightarrow> if saved = [] then highScore a else parseInt saved)"
  by (simp add: loadHighScore_def Let_def split: option.split)

lemma loadHighScore_storage: "localStorage (loadHighScore a) = localStorage a"
  by (simp add: loadHighScore_def Let_def split: option.split)

lemma reload_highScore:
  "highScore (reload a) =
     (case localStorage a HIGHSCORE_KEY of
        None \<Rightarrow> Num 0
      | Some saved \<Rightarrow> if saved = [] then Num 0 else parseInt saved)"
  by (simp add: reload_def loadHighScore_highScore initialApp_def split: option.split)

lemma reload_mounted:
  "highScore (reload (loadHighScore (initialApp store conn addr)))
     = highScore (loadHighScore (initialApp store conn addr))"
  by (simp add: reload_highScore loadHighScore_storage)
     (simp add: loadHighScore_highScore initialApp_def split: option.split)

lemma appStep_consistent:
  assumes "safeAction act" "highScore (reload a) = highScore a"
  shows "highScore (reload (appStep a act)) = highScore (appStep a act)"
proof (cases act)
  case (HandleGameOver S)
  with assms(1) have s: "isSafeInteger S" by simp
  show ?thesis
  proof (cases "exceeds S (highScore a)")
    case True
    then show ?thesis
      using HandleGameOver
      by (simp add: reload_highScore handleGameOver_def Let_def toString_nonempty
            parseInt_toString[OF s])
  next
    case False
    then show ?thesis
      using HandleGameOver assms(2)
      by (simp add: reload_highScore handleGameOver_def Let_def)
  qed
qed (use assms(2) in \<open>simp_all add: reload_highScore startGame_def setScore_def disconnectWallet_def\<close>)

lemma runApp_consistent:
  assumes "list_all safeAction acts" "highScore (reload a) = highScore a"
  shows "highScore (reload (runApp acts a)) = highScore (runApp acts a)"
  using assms unfolding runApp_def
  by (induction acts arbitrary: a) (simp_all add: appStep_consistent)

text \<open>
  Claim C9.  The high score is read from the fixed key \<open>crypto-runner-highscore\<close>
  exactly once, by the mount effect: whatever happens to the mounted component
  afterwards, the storage log holds that one read.  The read leaves the storage
  as it is and puts \<^verbatim>\<open>parseInt\<close> of the stored string into the state, or keeps 0
  when nothing or the empty string is stored.  When a run ends with final score
  \<open>S\<close>, the high score in state and the stored value are overwritten with \<open>S\<close>
  exactly when \<open>S\<close> is greater than the high score in state, and both are left
  unchanged otherwise.  State and storage stay in step: after any actions with
  final scores that are safe integers, mounting the component afresh on the
  storage left behind reads the high score that the state holds.
\<close>

theorem high_score_persistence:
  "filter isGetItem (storageLog (runApp acts (loadHighScore (initialApp store conn addr))))
     = [GetItem HIGHSCORE_KEY] \<and>
   highScore (loadHighScore (initialApp store conn addr)) =
     (case store HIGHSCORE_KEY of
        None \<Rightarrow> Num 0
      | Some saved \<Rightarrow> if saved = [] then Num 0 else parseInt saved) \<and>
   localStorage (loadHighScore (initialApp store conn addr)) = store \<and>
   highScore (handleGameOver S a) = (if exceeds S (highScore a) then Num S else highScore a) \<and>
   localStorage (handleGameOver S a) =
     (if exceeds S (highScore a) then (localStorage a)(HIGHSCORE_KEY \<mapsto> toString S)
      else localStorage a) \<and>
   (list_all safeAction acts \<longrightarrow>
      highScore (reload (runApp acts (loadHighScore (initialApp store conn addr))))
        = highScore (runApp acts (loadHighScore (initialApp store conn addr))))"
proof -
  have "list_all safeAction acts \<Longrightarrow>
      highScore (reload (runApp acts (loadHighScore (initialApp store conn addr))))
        = highScore (runApp acts (loadHighScore (initialApp store conn addr)))"
    by (rule runApp_consistent[OF _ reload_mounted])
  moreover have "highScore (loadHighScore (initialApp store conn addr)) =
     (case store HIGHSCORE_KEY of
        None \<Rightarrow> Num 0
      | Some saved \<Rightarrow> if saved = [] then Num 0 else parseInt saved)"
    by (simp add: loadHighScore_highScore initialApp_def split: option.split)
  moreover have "localStorage (loadHighScore (initialApp store conn addr)) = store"
    by (simp add: loadHighScore_storage initialApp_def)
  ultimately show ?thesis
    by (simp add: runApp_reads loadHighScore_log initialApp_def handleGameOver_def Let_def)
qed

text \<open>
  A stored best of 100: a run that ends with 5 changes nothing, a later run that
  ends with 250 overwrites state and storage, and a fresh mount reads 250.
\<close>

lemma parseInt_100: "parseInt ''100'' = Num 100"
  by (simp add: parseInt_def isWhiteSpace_def isDigit_def digitsValue_def toDouble_def Let_def)

lemma toString_250: "toString 250 = ''250''"
  by code_simp

theorem high_score_persistence_witness:
  "list_all safeAction [HandleGameOver 5, StartGame, HandleGameOver 250] \<and>
   highScore (loadHighScore (initialApp bestOf100 True None)) = Num 100 \<and>
   localStorage (runApp [HandleGameOver 5] (loadHighScore (initialApp bestOf100 True None)))
     = bestOf100 \<and>
   highScore (runApp [HandleGameOver 5] (loadHighScore (initialApp bestOf100 True None)))
     = Num 100 \<and>
   localStorage (runApp [HandleGameOver 5, StartGame, HandleGameOver 250]
       (loadHighScore (initialApp bestOf100 True None))) HIGHSCORE_KEY = Some ''250'' \<and>
   highScore (runApp [HandleGameOver 5, StartGame, HandleGameOver 250]
       (loadHighScore (initialApp bestOf100 True None))) = Num 250 \<and>
   highScore (reload (runApp [HandleGameOver 5, StartGame, HandleGameOver 250]
       (loadHighScore (initialApp bestOf100 True None)))) = Num 250 \<and>
   filter isGetItem (storageLog (runApp [HandleGameOver 5, StartGame, HandleGameOver 250]
       (loadHighScore (initialApp bestOf100 True None)))) = [GetItem HIGHSCORE_KEY]"
proof -
  have m: "loadHighScore (initialApp bestOf100 True None) =
      \<lparr>gameState = START, balance = None, score = 0, highScore = Num 100,
       isConnected = True, address = None, localStorage = bestOf100,
       storageLog = [GetItem HIGHSCORE_KEY], opened = []\<rparr>"
    by (simp add: loadHighScore_def initialApp_def bestOf100_def Let_def parseInt_100)
  have ok: "list_all safeAction [HandleGameOver 5, StartGame, HandleGameOver 250]"
    by (simp add: isSafeInteger_def)
  have h5: "highScore (runApp [HandleGameOver 5] (loadHighScore (initialApp bestOf100 True None)))
     = Num 100"
    "localStorage (runApp [HandleGameOver 5] (loadHighScore (initialApp bestOf100 True None)))
     = bestOf100"
    by (simp_all add: m runApp_def handleGameOver_def Let_def)
  have h250: "highScore (runApp [HandleGameOver 5, StartGame, HandleGameOver 250]
       (loadHighScore (initialApp bestOf100 True None))) = Num 250"
    "localStorage (runApp [HandleGameOver 5, StartGame, HandleGameOver 250]
       (loadHighScore (initialApp bestOf100 True None))) HIGHSCORE_KEY = Some ''250''"
    by (simp_all add: m runApp_def handleGameOver_def startGame_def Let_def toString_250)
  from high_score_persistence[of "[HandleGameOver 5, StartGame, HandleGameOver 250]"
      bestOf100 True None 5 "loadHighScore (initialApp bestOf100 True None)"]
  have r: "highScore (reload (runApp [HandleGameOver 5, StartGame, HandleGameOver 250]
       (loadHighScore (initialApp bestOf100 True None)))) = Num 250"
    and g: "filter isGetItem (storageLog (runApp [HandleGameOver 5, StartGame, HandleGameOver 250]
       (loadHighScore (initialApp bestOf100 True None)))) = [GetItem HIGHSCORE_KEY]"
    using ok h250(1) by simp_all
  show ?thesis using ok m h5 h250 r g by simp
qed

text \<open>
  Claim C2, as amended.  \<^verbatim>\<open>startGame\<close> is guarded by the wallet: with a wallet
  connected it sets the score to 0 and the phase to playing, from any screen;
  without one it opens the wallet modal on its Connect view and leaves score and
  phase as they were.
\<close>

theorem startGame_needs_wallet:
  "(isConnected a \<longrightarrow>
      App.score (startGame a) = 0 \<and> gameState (startGame a) = PLAYING \<and>
      opened (startGame a) = opened a) \<and>
   (\<not> isConnected a \<longrightarrow>
      App.score (startGame a) = App.score a \<and> gameState (startGame a) = gameState a \<and>
      opened (startGame a) = opened a @ [''Connect''])"
  by (simp add: startGame_def)

text \<open>
  Both cases at concrete components: a connected one on the start screen, and a
  disconnected one on the game-over screen after a run that ended with score 7.
\<close>

theorem startGame_needs_wallet_witness:
  "isConnected (initialApp Map.empty True (Some ''0xabc'')) \<and>
   App.score (startGame (initialApp Map.empty True (Some ''0xabc''))) = 0 \<and>
   gameState (startGame (initialApp Map.empty True (Some ''0xabc''))) = PLAYING \<and>
   \<not> isConnected (handleGameOver 7 (initialApp Map.empty False None)) \<and>
   App.score (startGame (handleGameOver 7 (initialApp Map.empty False None))) = 7 \<and>
   gameState (startGame (handleGameOver 7 (initialApp Map.empty False None))) = GAMEOVER \<and>
   opened (startGame (handleGameOver 7 (initialApp Map.empty False None))) = [''Connect'']"
  using startGame_needs_wallet [of "initialApp Map.empty True (Some ''0xabc'')"]
    startGame_needs_wallet [of "handleGameOver 7 (initialApp Map.empty False None)"]
  by (simp add: initialApp_def handleGameOver_def Let_def)

text \<open>
  Claim C2 as stated fails: on the game-over screen with score 7 and no wallet,
  \<^verbatim>\<open>startGame\<close> neither resets the score nor enters the playing phase.
\<close>

theorem startGame_without_wallet_counterexample:
  "\<not> (App.score (startGame ((initialApp Map.empty False None)
            \<lparr>App.score := 7, gameState := GAMEOVER\<rparr>)) = 0 \<and>
      gameState (startGame ((initialApp Map.empty False None)
            \<lparr>App.score := 7, gameState := GAMEOVER\<rparr>)) = PLAYING)"
  by (simp add: startGame_def initialApp_def)

subsection \<open>Particles\<close>

lemma burst_life: "q \<in> set (burst n rnd k px py col) \<Longrightarrow> life q = 1"
  by (induction n arbitrary: k) auto

lemma sweepObstacles_particles:
  "\<exists>fresh. particles (snd (sweepObstacles rnd dt c obs s)) = particles s @ fresh \<and>
     (\<forall>q \<in> set fresh. life q = 1)"
proof (induction obs arbitrary: s)
  case Nil
  show ?case by simp
next
  case (Cons ob rest)
  let ?ob = "moveObstacle dt ob"
  consider (hit) "collides (player s) ?ob"
    | (out) "\<not> collides (player s) ?ob" "Obstacle.y ?ob > real (Canvas.height c)"
    | (keep) "\<not> collides (player s) ?ob" "\<not> Obstacle.y ?ob > real (Canvas.height c)"
    by blast
  then show ?case
  proof cases
    case hit
    define s2 where "s2 = emit (OnGameOver \<lfloor>Sim.score s\<rfloor>)
       (createExplosion rnd (Player.x (player s) + Player.width (player s) / 2)
          (Player.y (player s) + Player.height (player s) / 2) RED_VULN s)"
    define b where "b = burst 25 rnd (rng (playCrashSound s))
          (Player.x (player s) + Player.width (player s) / 2)
          (Player.y (player s) + Player.height (player s) / 2) RED_VULN"
    have b: "particles s2 = particles s @ b" "\<forall>q \<in> set b. life q = 1"
      unfolding s2_def b_def by (simp_all add: burst_life)
    obtain fresh where f: "particles (snd (sweepObstacles rnd dt c rest s2)) = particles s2 @ fresh"
      "\<forall>q \<in> set fresh. life q = 1"
      using Cons.IH by blast
    have "snd (sweepObstacles rnd dt c (ob # rest) s) = snd (sweepObstacles rnd dt c rest s2)"
      using hit by (simp add: Let_def s2_def)
    then have "particles (snd (sweepObstacles rnd dt c (ob # rest) s)) = particles s @ (b @ fresh)"
      using b f by simp
    moreover have "\<forall>q \<in> set (b @ fresh). life q = 1" using b f by auto
    ultimately show ?thesis by blast
  next
    case out
    define s3 where "s3 = emit (OnScoreUpdate \<lfloor>Sim.score s + 10\<rfloor>)
       ((playScoreSound s)\<lparr>Sim.score := Sim.score s + 10\<rparr>)"
    have p3: "particles s3 = particles s" by (simp add: s3_def)
    have "snd (sweepObstacles rnd dt c (ob # rest) s) = snd (sweepObstacles rnd dt c rest s3)"
      using out by (simp add: Let_def s3_def)
    then show ?thesis using Cons.IH[of s3] p3 by simp
  next
    case keep
    have "snd (sweepObstacles rnd dt c (ob # rest) s) = snd (sweepObstacles rnd dt c rest s)"
      using keep by (simp add: Let_def split: prod.split)
    then show ?thesis using Cons.IH by simp
  qed
qed

lemma advanceParticles_alive: "q \<in> set (advanceParticles dt ps) \<Longrightarrow> 0 < life q"
  by (simp add: advanceParticles_def)

lemma advanceParticles_filter_map:
  "advanceParticles dt ps =
     map (stepParticle dt) (filter (\<lambda>p. \<not> life p - 0.02 * (dt / 16.66) \<le> 0) ps)"
  by (induction ps) (simp_all add: advanceParticles_def stepParticle_def)

lemma update_particles:
  "\<exists>fresh. particles (update g rnd dt s) = advanceParticles dt (particles s) @ fresh \<and>
     (\<forall>q \<in> set fresh. life q = 1) \<and> (g \<noteq> PLAYING \<longrightarrow> fresh = [])"
proof (cases "g = PLAYING \<and> canvas s \<noteq> None")
  case True
  then obtain c where c: "canvas s = Some c" by blast
  define s5 where "s5 = s\<lparr>particles := advanceParticles dt (particles s),
                  player := easePlayer dt (player s),
                  currentFallSpeed := currentFallSpeed s + SPEED_INCREMENT * dt,
                  currentDifficulty := currentDifficulty s + (SPEED_INCREMENT / 8) * dt,
                  spawnTimer := spawnTimer s - dt\<rparr>"
  define s6 where "s6 = (if spawnTimer s - dt \<le> 0 then spawnObstacle rnd c s5 else s5)"
  have p6: "particles s6 = advanceParticles dt (particles s)"
    by (simp add: s6_def s5_def)
  obtain fresh where f:
    "particles (snd (sweepObstacles rnd dt c (obstacles s6) s6)) = particles s6 @ fresh"
    "\<forall>q \<in> set fresh. life q = 1"
    using sweepObstacles_particles by blast
  have "particles (update g rnd dt s) = particles (snd (sweepObstacles rnd dt c (obstacles s6) s6))"
    using True c by (simp add: update_playing Let_def s6_def s5_def)
  then show ?thesis using f p6 True by auto
next
  case False
  then have "particles (update g rnd dt s) = advanceParticles dt (particles s)"
    by (auto simp add: update_idle)
  then show ?thesis by simp
qed

text \<open>
  Claim C5, as amended.  Every call of \<^verbatim>\<open>update\<close>, in every phase and with or
  without a canvas, passes all particles through the filter: each particle's
  life goes down by \<open>0.02 * (dt / 16.66)\<close>, which is a strict decrease when
  \<open>dt > 0\<close>; the survivors are, in order, exactly the particles whose life after
  the decrement is not \<open>\<le> 0\<close>; the only other particles of the next frame are
  those of explosions of this frame, with life 1, and there are none outside
  the playing phase.  So no particle with non-positive life is left.
\<close>

theorem particles_advance:
  "(0 < dt \<longrightarrow> life (stepParticle dt p) < life p) \<and>
   advanceParticles dt ps =
     map (stepParticle dt) (filter (\<lambda>p. \<not> life p - 0.02 * (dt / 16.66) \<le> 0) ps) \<and>
   (\<exists>fresh. particles (update g rnd dt s) = advanceParticles dt (particles s) @ fresh \<and>
      (\<forall>q \<in> set fresh. life q = 1) \<and> (g \<noteq> PLAYING \<longrightarrow> fresh = [])) \<and>
   (\<forall>q \<in> set (particles (update g rnd dt s)). 0 < life q)"
proof -
  have a: "0 < dt \<longrightarrow> life (stepParticle dt p) < life p"
    by (simp add: stepParticle_def)
  obtain fresh where f: "particles (update g rnd dt s) = advanceParticles dt (particles s) @ fresh"
    "\<forall>q \<in> set fresh. life q = 1" "g \<noteq> PLAYING \<longrightarrow> fresh = []"
    using update_particles by blast
  have d: "\<forall>q \<in> set (particles (update g rnd dt s)). 0 < life q"
    using f advanceParticles_alive by auto
  from a advanceParticles_filter_map f d show ?thesis by blast
qed

text \<open>
  A frame of 16.66 ms on the game-over screen: the fresh particle's life drops
  from 1 to 0.98, the one with life 0.01 is removed.
\<close>

theorem particles_advance_witness:
  "(0 :: real) < 833 / 50 \<and>
   life (stepParticle (833 / 50) sparkA) < life sparkA \<and>
   map life (particles (update GAMEOVER (\<lambda>k. 0) (833 / 50) sparks)) = [49 / 50] \<and>
   advanceParticles (833 / 50) [sparkA, sparkB] = [stepParticle (833 / 50) sparkA]"
  using particles_advance [where dt = "833 / 50" and p = sparkA and ps = "[sparkA, sparkB]"
      and g = GAMEOVER and rnd = "\<lambda>k. 0" and s = sparks]
  by (simp add: sparks_def sparkA_def sparkB_def initialSim_def update_idle
        advanceParticles_def stepParticle_def)

text \<open>
  Claim C5 as stated fails for a call with \<open>dt = 0\<close>, which is what \<^verbatim>\<open>animate\<close>
  passes on its first frame (\<^verbatim>\<open>time - (lastTimeRef.current || time)\<close>): no life
  decreases.
\<close>

theorem particle_life_counterexample:
  "\<not> life (stepParticle 0 sparkA) < life sparkA \<and>
   particles (update START (\<lambda>k. 0) 0 sparks) = [sparkA, sparkB]"
  by (simp add: sparks_def sparkA_def sparkB_def initialSim_def update_idle
        advanceParticles_def stepParticle_def)

subsection \<open>Spawn timer\<close>

lemma update_playing_sweep:
  "canvas s = Some c \<Longrightarrow>
   update PLAYING rnd dt s =
     (let s6 = beforeSweep rnd c dt s;
          r = sweepObstacles rnd dt c (obstacles s6) s6
      in (snd r)\<lparr>obstacles := fst r, Sim.score := Sim.score (snd r) + 0.015 * dt\<rparr>)"
  by (simp add: update_playing beforeSweep_def Let_def)

lemma beforeSweep_fields [simp]:
  "canvas (beforeSweep rnd c dt s) = canvas s"
  "audioCtx (beforeSweep rnd c dt s) = audioCtx s"
  "player (beforeSweep rnd c dt s) = easePlayer dt (player s)"
  "particles (beforeSweep rnd c dt s) = advanceParticles dt (particles s)"
  "Sim.score (beforeSweep rnd c dt s) = Sim.score s"
  "events (beforeSweep rnd c dt s) = events s"
  "currentFallSpeed (beforeSweep rnd c dt s) = currentFallSpeed s + SPEED_INCREMENT * dt"
  "currentDifficulty (beforeSweep rnd c dt s) = currentDifficulty s + (SPEED_INCREMENT / 8) * dt"
  by (simp_all add: beforeSweep_def Let_def)

lemma beforeSweep_timer:
  "spawnTimer (beforeSweep rnd c dt s) =
     (if spawnTimer s - dt \<le> 0
      then max 350 (1000 / (currentDifficulty s + (SPEED_INCREMENT / 8) * dt))
      else spawnTimer s - dt)"
  by (simp add: beforeSweep_def Let_def spawnObstacle_def)

lemma update_timer:
  "canvas s = Some c \<Longrightarrow>
   spawnTimer (update PLAYING rnd dt s) =
     (if spawnTimer s - dt \<le> 0
      then max 350 (1000 / (currentDifficulty s + (SPEED_INCREMENT / 8) * dt))
      else spawnTimer s - dt)"
  by (simp add: update_playing_sweep Let_def beforeSweep_timer)

lemma update_difficulty:
  "canvas s = Some c \<Longrightarrow>
   currentDifficulty (update PLAYING rnd dt s) = currentDifficulty s + (SPEED_INCREMENT / 8) * dt"
  by (simp add: update_playing_sweep Let_def)

lemma update_fallSpeed:
  "canvas s = Some c \<Longrightarrow>
   currentFallSpeed (update PLAYING rnd dt s) = currentFallSpeed s + SPEED_INCREMENT * dt"
  by (simp add: update_playing_sweep Let_def)

lemma next_spawn_elapsed:
  "canvas s = Some c \<Longrightarrow>
   spawnFlags rnd s (dts @ [dt']) = replicate (length dts) False @ [True] \<Longrightarrow>
   spawnTimer s \<le> sum_list dts + dt'"
proof (induction dts arbitrary: s)
  case Nil
  then show ?case by simp
next
  case (Cons dt dts)
  from Cons.prems(2) have no: "\<not> spawnTimer s - dt \<le> 0"
    and rest: "spawnFlags rnd (update PLAYING rnd dt s) (dts @ [dt']) =
                 replicate (length dts) False @ [True]"
    by simp_all
  have t: "spawnTimer (update PLAYING rnd dt s) = spawnTimer s - dt"
    using no Cons.prems(1) by (simp add: update_timer)
  have "canvas (update PLAYING rnd dt s) = Some c" using Cons.prems(1) by simp
  from Cons.IH[OF this rest] t show ?case by simp
qed

lemma mounted_fields [simp]:
  "canvas (mounted w h) = Some \<lparr>Canvas.width = w, height = h\<rparr>"
  "spawnTimer (mounted w h) = 0" "currentDifficulty (mounted w h) = 1"
  "currentFallSpeed (mounted w h) = 4" "Sim.score (mounted w h) = 0"
  "obstacles (mounted w h) = []" "particles (mounted w h) = []"
  "rng (mounted w h) = 0" "audioCtx (mounted w h) = None"
  "events (mounted w h) = [OnScoreUpdate 0]"
  "player (mounted w h) = \<lparr>Player.x = real w / 2 - 24, y = real h - 240, width = 48,
      height = 48, color = BASE_BLUE, targetX = real w / 2 - 24\<rparr>"
  by (simp_all add: mounted_def resize_def initGame_def initialSim_def Let_def
        INITIAL_FALL_SPEED_def)

text \<open>
  Claim C7.  A playing frame that spawns an obstacle resets the spawn timer to
  \<open>max 350 (1000 / difficulty)\<close>, which is at least 350; and when the next spawn
  comes after further playing frames \<open>dts\<close> without a spawn and a frame \<open>dt'\<close> with
  one, these frames add up to at least 350 ms.  (The difficulty is taken non-zero,
  as it is, being at least 1, in every run from a reset with non-negative frame
  times.)
\<close>

theorem spawn_interval:
  assumes "canvas s = Some c"
    and "spawnTimer s - dt \<le> 0"
    and "currentDifficulty (update PLAYING rnd dt s) \<noteq> 0"
  shows "spawnTimer (update PLAYING rnd dt s) =
           max 350 (1000 / currentDifficulty (update PLAYING rnd dt s)) \<and>
         350 \<le> spawnTimer (update PLAYING rnd dt s) \<and>
         (spawnFlags rnd (update PLAYING rnd dt s) (dts @ [dt']) =
            replicate (length dts) False @ [True] \<longrightarrow>
          350 \<le> sum_list dts + dt')"
proof -
  let ?s' = "update PLAYING rnd dt s"
  have t: "spawnTimer ?s' = max 350 (1000 / currentDifficulty ?s')"
    using assms(1,2) by (simp add: update_timer update_difficulty)
  then have ge: "350 \<le> spawnTimer ?s'" by simp
  have c': "canvas ?s' = Some c" using assms(1) by simp
  have "spawnFlags rnd ?s' (dts @ [dt']) = replicate (length dts) False @ [True] \<longrightarrow>
          350 \<le> sum_list dts + dt'"
    using next_spawn_elapsed[OF c'] ge by fastforce
  with t ge show ?thesis by blast
qed

text \<open>
  On a fresh 800 by 600 game the first frame spawns and sets the timer to about
  999.97 ms; a frame of 500 ms then passes without a spawn and the next one
  spawns.
\<close>

theorem spawn_interval_witness:
  "canvas (mounted 800 600) = Some \<lparr>Canvas.width = 800, height = 600\<rparr> \<and>
   spawnTimer (mounted 800 600) - 833 / 50 \<le> 0 \<and>
   currentDifficulty (update PLAYING (\<lambda>k. 0) (833 / 50) (mounted 800 600)) \<noteq> 0 \<and>
   spawnTimer (update PLAYING (\<lambda>k. 0) (833 / 50) (mounted 800 600)) =
     max 350 (1000 / currentDifficulty (update PLAYING (\<lambda>k. 0) (833 / 50) (mounted 800 600))) \<and>
   350 \<le> spawnTimer (update PLAYING (\<lambda>k. 0) (833 / 50) (mounted 800 600)) \<and>
   spawnFlags (\<lambda>k. 0) (update PLAYING (\<lambda>k. 0) (833 / 50) (mounted 800 600)) ([500] @ [500]) =
     replicate (length [500 :: real]) False @ [True] \<and>
   (350 :: real) \<le> sum_list [500] + 500"
proof -
  let ?c = "\<lparr>Canvas.width = 800, height = 600\<rparr>"
  have h1: "canvas (mounted 800 600) = Some ?c" by simp
  have h2: "spawnTimer (mounted 800 600) - 833 / 50 \<le> 0" by simp
  have h3: "currentDifficulty (update PLAYING (\<lambda>k. 0) (833 / 50) (mounted 800 600)) \<noteq> 0"
    by (simp add: update_difficulty SPEED_INCREMENT_def)
  have fl: "spawnFlags (\<lambda>k. 0) (update PLAYING (\<lambda>k. 0) (833 / 50) (mounted 800 600)) ([500] @ [500]) =
     replicate (length [500 :: real]) False @ [True]"
    by (simp add: update_timer update_difficulty SPEED_INCREMENT_def)
  from spawn_interval[OF h1 h2 h3, of "[500]" 500] h1 h2 h3 fl show ?thesis by simp
qed

subsection \<open>Spawned obstacles\<close>

lemma spawnObstacle_obstacles:
  "obstacles (spawnObstacle rnd c s) =
     obstacles s @
     [\<lparr>Obstacle.x = rnd (rng s + 1) * (real (Canvas.width c) - (50 + rnd (rng s) * 80)),
       y = - 100, width = 50 + rnd (rng s) * 80, height = 45, color = RED_VULN,
       speed = currentFallSpeed s + rnd (rng s + 2) * 2.5\<rparr>]"
  by (simp add: spawnObstacle_def Let_def)

lemma beforeSweep_spawned:
  "spawnTimer s - dt \<le> 0 \<Longrightarrow>
   obstacles (beforeSweep rnd c dt s) =
     obstacles s @
     [\<lparr>Obstacle.x = rnd (rng s + 1) * (real (Canvas.width c) - (50 + rnd (rng s) * 80)),
       y = - 100, width = 50 + rnd (rng s) * 80, height = 45, color = RED_VULN,
       speed = currentFallSpeed s + SPEED_INCREMENT * dt + rnd (rng s + 2) * 2.5\<rparr>]"
  by (simp add: beforeSweep_def Let_def spawnObstacle_obstacles)

text \<open>
  The spawn block in binary64, at the random numbers \<open>1 - 2 powi (-52)\<close> and
  \<open>1 - 2 powi (-53)\<close>, the largest results of \<^verbatim>\<open>Math.random()\<close>, and at 1/2.
\<close>

lemma r0_times_80: "fl (22517998136852475 / 281474976710656) = 5629499534213119 / 70368744177664"
  by (rule fl_evalI[where e = "6" and n = "5629499534213119"])
     (simp_all add: roundEven_def Let_def power_int_minus)

lemma r0_width: "fl (9147936743096319 / 70368744177664) = 130"
  by (rule fl_evalI[where e = "7" and n = "4573968371548160"])
     (simp_all add: roundEven_def Let_def power_int_minus)

lemma r0_jitter: "fl (22517998136852475 / 9007199254740992) = 5629499534213119 / 2251799813685248"
  by (rule fl_evalI[where e = "1" and n = "5629499534213119"])
     (simp_all add: roundEven_def Let_def power_int_minus)

lemma r0_speed: "fl (14636698788954111 / 2251799813685248) = 13 / 2"
  by (rule fl_evalI[where e = "2" and n = "7318349394477056"])
     (simp_all add: roundEven_def Let_def power_int_minus)

lemma fl_r0: "fl (4503599627370495 / 4503599627370496) = 4503599627370495 / 4503599627370496"
  by (rule fl_evalI[where e = "- 1" and n = "9007199254740990"])
     (simp_all add: roundEven_def Let_def power_int_minus)

lemma fl_five_halves: "fl (5 / 2) = 5 / 2"
  by (rule fl_evalI[where e = "1" and n = "5629499534213120"])
     (simp_all add: roundEven_def Let_def power_int_minus)

lemma top_jitter: "fl (45035996273704955 / 18014398509481984) = 5629499534213119 / 2251799813685248"
  by (rule fl_evalI[where e = "1" and n = "5629499534213119"])
     (simp_all add: roundEven_def Let_def power_int_minus)

lemma half_evals:
  "fl (5 / 4) = 5 / 4" "fl (21 / 4) = 21 / 4"
proof -
  show "fl (5 / 4) = 5 / 4"
    by (rule fl_evalI[where e = 0 and n = 5629499534213120])
       (simp_all add: roundEven_def Let_def power_int_minus)
  show "fl (21 / 4) = 21 / 4"
    by (rule fl_evalI[where e = 2 and n = 5910974510923776])
       (simp_all add: roundEven_def Let_def power_int_minus)
qed

lemma spawnWidth64_bounds:
  assumes "0 \<le> r" "r < 1"
  shows "50 \<le> spawnWidth64 r" "spawnWidth64 r \<le> 130"
proof -
  have m0: "0 \<le> fl (r * 80)" using assms(1) by (simp add: fl_nonneg)
  have "fl (r * 80) \<le> fl 80" using assms by (intro fl_mono) simp_all
  then have m1: "fl (r * 80) \<le> 80" by simp
  have "fl 50 \<le> fl (50 + fl (r * 80))" using m0 by (intro fl_mono) simp_all
  then show "50 \<le> spawnWidth64 r" by (simp add: spawnWidth64_def)
  have "fl (50 + fl (r * 80)) \<le> fl 130" using m0 m1 by (intro fl_mono) simp_all
  then show "spawnWidth64 r \<le> 130" by (simp add: spawnWidth64_def)
qed

lemma spawnJitter64_bounds:
  assumes "0 \<le> r" "r < 1"
  shows "0 \<le> spawnJitter64 r" "spawnJitter64 r \<le> 5 / 2"
proof -
  show "0 \<le> spawnJitter64 r" using assms(1) by (simp add: spawnJitter64_def fl_nonneg)
  have "fl (r * (5 / 2)) \<le> fl (5 / 2)" using assms by (intro fl_mono) simp_all
  then show "spawnJitter64 r \<le> 5 / 2" by (simp add: spawnJitter64_def fl_five_halves)
qed

lemma spawnJitter64_below:
  assumes "fl r = r" "0 \<le> r" "r < 1"
  shows "spawnJitter64 r < 5 / 2"
proof -
  have "r * (5 / 2) \<le> 9007199254740991 / 9007199254740992 * (5 / 2)"
    using below_one[OF assms] by simp
  then have "fl (r * (5 / 2)) \<le> fl (9007199254740991 / 9007199254740992 * (5 / 2))"
    using assms(2) by (intro fl_mono) simp_all
  then show ?thesis by (simp add: spawnJitter64_def top_jitter)
qed

lemma spawnSpeed64_ge:
  assumes "0 \<le> r" "r < 1" "0 \<le> base" "fl base = base"
  shows "base \<le> spawnSpeed64 base r"
proof -
  have "fl base \<le> fl (base + spawnJitter64 r)"
    using assms(3) spawnJitter64_bounds(1)[OF assms(1,2)] by (intro fl_mono) simp_all
  then show ?thesis by (simp add: spawnSpeed64_def assms(4))
qed

text \<open>
  Claim C8, as amended.  \<^verbatim>\<open>Math.random()\<close> returns a double in \<open>[0, 1)\<close>, and the
  fall speed is a double that is not negative.  Then, computed as the code
  computes them, the width of a spawned obstacle lies in \<open>[50, 130]\<close>, the jitter
  \<^verbatim>\<open>Math.random() * 2.5\<close> lies in \<open>[0, 2.5)\<close>, and the obstacle's speed, the rounded sum
  of base speed and jitter, is at least the base speed and at most the rounded
  sum of base speed and 2.5.
\<close>

theorem spawned_speed_and_width:
  assumes "fl rw = rw" and "0 \<le> rw" and "rw < 1"
    and "fl rj = rj" and "0 \<le> rj" and "rj < 1"
    and "fl base = base" and "0 \<le> base"
  shows "50 \<le> spawnWidth64 rw \<and> spawnWidth64 rw \<le> 130 \<and>
         0 \<le> spawnJitter64 rj \<and> spawnJitter64 rj < 5 / 2 \<and>
         base \<le> spawnSpeed64 base rj \<and> spawnSpeed64 base rj \<le> fl (base + 5 / 2)"
proof -
  have j: "0 \<le> spawnJitter64 rj" "spawnJitter64 rj \<le> 5 / 2"
    using assms(5,6) by (rule spawnJitter64_bounds)+
  have "fl (base + spawnJitter64 rj) \<le> fl (base + 5 / 2)"
    using assms(8) j by (intro fl_mono) simp_all
  then have "spawnSpeed64 base rj \<le> fl (base + 5 / 2)" by (simp add: spawnSpeed64_def)
  moreover have "base \<le> spawnSpeed64 base rj"
    using assms(5,6,8,7) by (rule spawnSpeed64_ge)
  moreover have "spawnJitter64 rj < 5 / 2" using assms(4,5,6) by (rule spawnJitter64_below)
  moreover have "50 \<le> spawnWidth64 rw" "spawnWidth64 rw \<le> 130"
    using assms(2,3) by (rule spawnWidth64_bounds)+
  ultimately show ?thesis using j(1) by simp
qed

text \<open>
  Random numbers 1/2 at base speed 4: width 90, jitter 1.25 and speed 5.25.
\<close>

theorem spawned_speed_and_width_witness:
  "fl (1 / 2) = 1 / 2 \<and> (0::real) \<le> 1 / 2 \<and> (1 / 2 :: real) < 1 \<and>
   fl 4 = 4 \<and> (0::real) \<le> 4 \<and>
   spawnWidth64 (1 / 2) = 90 \<and> spawnJitter64 (1 / 2) = 5 / 4 \<and>
   spawnSpeed64 4 (1 / 2) = 21 / 4 \<and>
   50 \<le> spawnWidth64 (1 / 2) \<and> spawnWidth64 (1 / 2) \<le> 130 \<and>
   0 \<le> spawnJitter64 (1 / 2) \<and> spawnJitter64 (1 / 2) < 5 / 2 \<and>
   4 \<le> spawnSpeed64 4 (1 / 2) \<and> spawnSpeed64 4 (1 / 2) \<le> fl (4 + 5 / 2)"
proof -
  have h: "fl (1 / 2) = 1 / 2" "(0::real) \<le> 1 / 2" "(1 / 2 :: real) < 1"
    and b: "fl 4 = 4" "(0::real) \<le> 4"
    by (simp_all add: fl_half)
  have v: "spawnWidth64 (1 / 2) = 90" "spawnJitter64 (1 / 2) = 5 / 4"
    "spawnSpeed64 4 (1 / 2) = 21 / 4"
    by (simp_all add: spawnWidth64_def spawnJitter64_def spawnSpeed64_def half_evals)
  from spawned_speed_and_width[OF h h b] h b v show ?thesis by simp
qed

text \<open>
  Claim C8 as stated fails in binary64 at the random number
  \<open>1 - 2 powi (-52)\<close>: \<open>50 + r * 80\<close> rounds to 130, so the width is not below 130;
  and at base speed 4 the jitter \<open>2.4999999999999996\<close> is added to give the speed
  6.5, which is not base speed plus jitter and exceeds the base speed by 2.5.
\<close>

theorem spawn_width_counterexample:
  "fl (4503599627370495 / 4503599627370496) = 4503599627370495 / 4503599627370496 \<and>
   (0::real) \<le> 4503599627370495 / 4503599627370496 \<and>
   (4503599627370495 / 4503599627370496 :: real) < 1 \<and>
   fl 4 = 4 \<and>
   spawnWidth64 (4503599627370495 / 4503599627370496) = 130 \<and>
   \<not> spawnWidth64 (4503599627370495 / 4503599627370496) < 130 \<and>
   spawnJitter64 (4503599627370495 / 4503599627370496)
     = 5629499534213119 / 2251799813685248 \<and>
   spawnSpeed64 4 (4503599627370495 / 4503599627370496) = 13 / 2 \<and>
   spawnSpeed64 4 (4503599627370495 / 4503599627370496)
     \<noteq> 4 + spawnJitter64 (4503599627370495 / 4503599627370496) \<and>
   \<not> spawnSpeed64 4 (4503599627370495 / 4503599627370496) - 4 < 5 / 2"
  by (simp add: spawnWidth64_def spawnSpeed64_def spawnJitter64_def r0_times_80 r0_width
        r0_jitter r0_speed fl_r0)

text \<open>
  Claim C10, as amended.  With \<^verbatim>\<open>Math.random()\<close> in \<open>[0, 1)\<close>, an obstacle is spawned
  at \<open>y = -100\<close> with height 45, and it lies inside the canvas horizontally
  (\<open>0 \<le> x\<close> and \<open>x + width \<le> canvasWidth\<close>) whenever the canvas is at least as wide
  as the obstacle, in particular whenever the canvas is at least 130 pixels wide.
\<close>

theorem spawned_inside_canvas:
  assumes "\<forall>k. 0 \<le> rnd k \<and> rnd k < 1"
    and "canvas s = Some c"
    and "spawnTimer s - dt \<le> 0"
    and "130 \<le> Canvas.width c \<or> 50 + rnd (rng s) * 80 \<le> real (Canvas.width c)"
  shows "\<exists>ob. obstacles (beforeSweep rnd c dt s) = obstacles s @ [ob] \<and>
           0 \<le> Obstacle.x ob \<and>
           Obstacle.x ob \<le> real (Canvas.width c) - Obstacle.width ob \<and>
           Obstacle.x ob + Obstacle.width ob \<le> real (Canvas.width c) \<and>
           Obstacle.y ob = - 100 \<and> Obstacle.height ob = 45"
proof -
  let ?w = "50 + rnd (rng s) * 80"
  let ?W = "real (Canvas.width c)"
  let ?r = "rnd (rng s + 1)"
  let ?ob = "\<lparr>Obstacle.x = ?r * (?W - ?w),
       y = - 100, width = ?w, height = 45, color = RED_VULN,
       speed = currentFallSpeed s + SPEED_INCREMENT * dt + rnd (rng s + 2) * 2.5\<rparr>"
  have r0: "0 \<le> rnd (rng s)" "rnd (rng s) < 1" and r1: "0 \<le> ?r" "?r \<le> 1"
    using assms(1) by (auto simp add: less_imp_le)
  have "?w < 130" using r0 by simp
  with assms(4) have fit: "0 \<le> ?W - ?w" by auto
  have lo: "0 \<le> ?r * (?W - ?w)" using r1(1) fit by (rule mult_nonneg_nonneg)
  have hi: "?r * (?W - ?w) \<le> ?W - ?w" using fit r1(2) by (rule mult_left_le_one_le[OF _ r1(1)])
  have "obstacles (beforeSweep rnd c dt s) = obstacles s @ [?ob]"
    using assms(3) by (rule beforeSweep_spawned)
  moreover have "0 \<le> Obstacle.x ?ob" using lo by simp
  moreover have "Obstacle.x ?ob \<le> ?W - Obstacle.width ?ob" using hi by simp
  moreover have "Obstacle.x ?ob + Obstacle.width ?ob \<le> ?W" using hi by simp
  moreover have "Obstacle.y ?ob = - 100" "Obstacle.height ?ob = 45" by simp_all
  ultimately show ?thesis by blast
qed

text \<open>The same first frame as before: the obstacle of width 90 is put at x = 355.\<close>

theorem spawned_inside_canvas_witness:
  "(\<forall>k. (0 :: real) \<le> (\<lambda>k. 1 / 2) k \<and> (\<lambda>k. 1 / 2 :: real) k < 1) \<and>
   canvas (mounted 800 600) = Some \<lparr>Canvas.width = 800, height = 600\<rparr> \<and>
   spawnTimer (mounted 800 600) - 833 / 50 \<le> 0 \<and>
   (130 :: nat) \<le> Canvas.width \<lparr>Canvas.width = 800, height = 600\<rparr> \<and>
   (\<exists>ob. obstacles (beforeSweep (\<lambda>k. 1 / 2) \<lparr>Canvas.width = 800, height = 600\<rparr> (833 / 50)
             (mounted 800 600)) = obstacles (mounted 800 600) @ [ob] \<and>
      0 \<le> Obstacle.x ob \<and>
      Obstacle.x ob \<le> real (Canvas.width \<lparr>Canvas.width = 800, height = 600\<rparr>) - Obstacle.width ob \<and>
      Obstacle.x ob + Obstacle.width ob \<le> real (Canvas.width \<lparr>Canvas.width = 800, height = 600\<rparr>) \<and>
      Obstacle.y ob = - 100 \<and> Obstacle.height ob = 45) \<and>
   map Obstacle.x (obstacles (beforeSweep (\<lambda>k. 1 / 2) \<lparr>Canvas.width = 800, height = 600\<rparr>
      (833 / 50) (mounted 800 600))) = [355]"
proof -
  have h1: "\<forall>k. (0 :: real) \<le> (\<lambda>k. 1 / 2) k \<and> (\<lambda>k. 1 / 2 :: real) k < 1" by simp
  have h2: "canvas (mounted 800 600) = Some \<lparr>Canvas.width = 800, height = 600\<rparr>" by simp
  have h3: "spawnTimer (mounted 800 600) - 833 / 50 \<le> 0" by simp
  have h4: "(130 :: nat) \<le> Canvas.width \<lparr>Canvas.width = 800, height = 600\<rparr>" by simp
  then have h4': "130 \<le> Canvas.width \<lparr>Canvas.width = 800, height = 600\<rparr> \<or>
     50 + (\<lambda>k. 1 / 2) (rng (mounted 800 600)) * 80
       \<le> real (Canvas.width \<lparr>Canvas.width = 800, height = 600\<rparr>)" by blast
  have v: "map Obstacle.x (obstacles (beforeSweep (\<lambda>k. 1 / 2) \<lparr>Canvas.width = 800, height = 600\<rparr>
      (833 / 50) (mounted 800 600))) = [355]"
    by (simp add: beforeSweep_spawned)
  from spawned_inside_canvas[OF h1 h2 h3 h4'] h1 h2 h3 h4 v show ?thesis by blast
qed

text \<open>
  Claim C10 as stated fails on a canvas narrower than the obstacle: in a window
  100 pixels wide, random numbers 0.9 give width 122 and
  \<open>x = 0.9 * (100 - 122) = -19.8\<close>, so the obstacle starts left of the canvas and
  ends right of it.
\<close>

theorem spawned_outside_canvas_counterexample:
  "canvas (mounted 100 600) = Some \<lparr>Canvas.width = 100, height = 600\<rparr> \<and>
   spawnTimer (mounted 100 600) - 833 / 50 \<le> 0 \<and>
   obstacles (beforeSweep (\<lambda>k. 9 / 10) \<lparr>Canvas.width = 100, height = 600\<rparr> (833 / 50)
      (mounted 100 600)) =
     [\<lparr>Obstacle.x = - (99 / 5), y = - 100, width = 122, height = 45, color = RED_VULN,
       speed = 4 + 15 / 100000 * (833 / 50) + 9 / 4\<rparr>] \<and>
   \<not> 0 \<le> Obstacle.x (last (obstacles (beforeSweep (\<lambda>k. 9 / 10)
      \<lparr>Canvas.width = 100, height = 600\<rparr> (833 / 50) (mounted 100 600)))) \<and>
   \<not> Obstacle.x (last (obstacles (beforeSweep (\<lambda>k. 9 / 10)
        \<lparr>Canvas.width = 100, height = 600\<rparr> (833 / 50) (mounted 100 600)))) +
      Obstacle.width (last (obstacles (beforeSweep (\<lambda>k. 9 / 10)
        \<lparr>Canvas.width = 100, height = 600\<rparr> (833 / 50) (mounted 100 600))))
      \<le> real (Canvas.width \<lparr>Canvas.width = 100, height = 600\<rparr>)"
  by (simp add: beforeSweep_spawned SPEED_INCREMENT_def)

subsection \<open>The player stays on the canvas\<close>

lemma decay_bounds:
  assumes "0 \<le> dt"
  shows "0 \<le> (0.001 :: real) powr (dt / 1000)" "(0.001 :: real) powr (dt / 1000) \<le> 1"
proof -
  show "0 \<le> (0.001 :: real) powr (dt / 1000)" by simp
  have "0 \<le> dt / 1000" using assms by simp
  then show "(0.001 :: real) powr (dt / 1000) \<le> 1" by (rule powr_le1) simp
qed

lemma between_lower:
  fixes f t v lo :: real
  assumes "0 \<le> f" "f \<le> 1" "lo \<le> t" "lo \<le> v"
  shows "lo \<le> t - (t - v) * f"
proof -
  have "(1 - f) * lo \<le> (1 - f) * t" using assms by (intro mult_left_mono) simp_all
  moreover have "f * lo \<le> f * v" using assms by (intro mult_left_mono) simp_all
  ultimately have "(1 - f) * lo + f * lo \<le> (1 - f) * t + f * v" by (rule add_mono)
  then show ?thesis by (simp add: algebra_simps)
qed

lemma between_upper:
  fixes f t v hi :: real
  assumes "0 \<le> f" "f \<le> 1" "t \<le> hi" "v \<le> hi"
  shows "t - (t - v) * f \<le> hi"
proof -
  have "(1 - f) * t \<le> (1 - f) * hi" using assms by (intro mult_left_mono) simp_all
  moreover have "f * v \<le> f * hi" using assms by (intro mult_left_mono) simp_all
  ultimately have "(1 - f) * t + f * v \<le> (1 - f) * hi + f * hi" by (rule add_mono)
  then show ?thesis by (simp add: algebra_simps)
qed

lemma initGame_settled:
  assumes "canvas s = Some c" "68 \<le> Canvas.width c"
  shows "settled c (initGame s)"
proof -
  have "68 \<le> real (Canvas.width c)" using assms(2) by simp
  then show ?thesis using assms(1)
    by (simp add: settled_def inRange_def initGame_def Let_def)
qed

lemma handleMove_canvas [simp]: "canvas (handleMove g rate d s) = canvas s"
  by (simp add: handleMove_def Let_def initAudio_def playMoveSound_def emit_def
        split: option.split Dir.split)

lemma handleMove_player:
  "canvas s = Some c \<Longrightarrow>
   player (handleMove PLAYING rate d s) =
     (case d of
        Left \<Rightarrow> (player s)\<lparr>targetX := max 10 (targetX (player s) - real (Canvas.width c) / 4)\<rparr>
      | Right \<Rightarrow> (player s)\<lparr>targetX :=
          min (real (Canvas.width c) - Player.width (player s) - 10)
              (targetX (player s) + real (Canvas.width c) / 4)\<rparr>)"
  by (simp add: handleMove_def Let_def initAudio_def playMoveSound_def emit_def
        split: option.split Dir.split)

lemma handleMove_settled:
  assumes "settled c s" "68 \<le> Canvas.width c"
  shows "settled c (handleMove g rate d s)"
proof (cases "g = PLAYING")
  case False
  then show ?thesis using assms(1) by (simp add: handleMove_def)
next
  case True
  have c: "canvas s = Some c" using assms(1) by (simp add: settled_def)
  have w: "68 \<le> real (Canvas.width c)" using assms(2) by simp
  show ?thesis
    using assms(1) w unfolding True settled_def inRange_def
    by (cases d) (simp_all add: handleMove_player[OF c])
qed

lemma update_settled:
  assumes "settled c s" "0 \<le> dt"
  shows "settled c (update g rnd dt s)"
proof (cases "g = PLAYING")
  case False
  then show ?thesis using assms(1) by (simp add: settled_def update_player)
next
  case True
  let ?p = "player s"
  let ?W = "real (Canvas.width c)"
  have c: "canvas s = Some c" and wd: "Player.width ?p = 48"
    and x: "10 \<le> Player.x ?p" "Player.x ?p \<le> ?W - 58"
    and t: "10 \<le> targetX ?p" "targetX ?p \<le> ?W - 58"
    using assms(1) by (simp_all add: settled_def inRange_def)
  note f = decay_bounds[OF assms(2)]
  have lo: "10 \<le> Player.x (easePlayer dt ?p)"
    unfolding easePlayer_x using f t(1) x(1) by (rule between_lower)
  have hi: "Player.x (easePlayer dt ?p) \<le> ?W - 58"
    unfolding easePlayer_x using f t(2) x(2) by (rule between_upper)
  show ?thesis
    using c wd lo hi t True by (simp add: settled_def inRange_def update_player)
qed

lemma applyInput_settled:
  assumes "settled c s" "68 \<le> Canvas.width c" "nonnegFrame i"
  shows "settled c (applyInput rnd rate s i)"
  using assms by (cases i) (simp_all add: handleMove_settled update_settled)

lemma runInputs_settled:
  assumes "settled c s" "68 \<le> Canvas.width c" "list_all nonnegFrame ins"
  shows "settled c (runInputs rnd rate ins s)"
  using assms unfolding runInputs_def
  by (induction ins arbitrary: s) (simp_all add: applyInput_settled)

text \<open>
  Claim C3, as amended.  After a game reset on a canvas at least 68 pixels wide,
  and through every sequence of steering intents and frames with non-negative
  elapsed time, in any phase, the player's x position and its target stay
  within \<open>[10, canvasWidth - playerWidth - 10]\<close>.
\<close>

theorem player_stays_in_range:
  assumes "canvas s = Some c"
    and "68 \<le> Canvas.width c"
    and "list_all nonnegFrame ins"
  shows "inRange c (player (runInputs rnd rate ins (initGame s))) \<and>
         10 \<le> targetX (player (runInputs rnd rate ins (initGame s))) \<and>
         targetX (player (runInputs rnd rate ins (initGame s)))
           \<le> real (Canvas.width c) - Player.width (player (runInputs rnd rate ins (initGame s))) - 10"
proof -
  have "settled c (initGame s)" using assms(1,2) by (rule initGame_settled)
  then have "settled c (runInputs rnd rate ins (initGame s))"
    using assms(2,3) by (rule runInputs_settled)
  then show ?thesis by (simp add: settled_def)
qed

lemma initGame_canvas [simp]: "canvas (initGame s) = canvas s"
  by (simp add: initGame_def Let_def split: option.split)

lemma initGame_player:
  "canvas s = Some c \<Longrightarrow>
   player (initGame s) =
     \<lparr>Player.x = real (Canvas.width c) / 2 - 24, y = real (Canvas.height c) - 240,
      width = 48, height = 48, color = BASE_BLUE, targetX = real (Canvas.width c) / 2 - 24\<rparr>"
  by (simp add: initGame_def Let_def)

text \<open>
  On a fresh 800 by 600 game: one step left, a frame, three steps right (the
  last one clamped at 742), a long frame.
\<close>

theorem player_stays_in_range_witness:
  "canvas (mounted 800 600) = Some \<lparr>Canvas.width = 800, height = 600\<rparr> \<and>
   (68 :: nat) \<le> Canvas.width \<lparr>Canvas.width = 800, height = 600\<rparr> \<and>
   list_all nonnegFrame
     [Steer PLAYING Left, Frame PLAYING (833 / 50), Steer PLAYING Right, Steer PLAYING Right,
      Steer PLAYING Right, Frame PLAYING 1000] \<and>
   inRange \<lparr>Canvas.width = 800, height = 600\<rparr>
     (player (runInputs (\<lambda>k. 0) 44100
        [Steer PLAYING Left, Frame PLAYING (833 / 50), Steer PLAYING Right, Steer PLAYING Right,
         Steer PLAYING Right, Frame PLAYING 1000] (initGame (mounted 800 600)))) \<and>
   targetX (player (runInputs (\<lambda>k. 0) 44100
        [Steer PLAYING Left, Frame PLAYING (833 / 50), Steer PLAYING Right, Steer PLAYING Right,
         Steer PLAYING Right, Frame PLAYING 1000] (initGame (mounted 800 600)))) = 742"
proof -
  let ?c = "\<lparr>Canvas.width = 800, height = 600\<rparr>"
  let ?ins = "[Steer PLAYING Left, Frame PLAYING (833 / 50), Steer PLAYING Right,
      Steer PLAYING Right, Steer PLAYING Right, Frame PLAYING 1000]"
  have h1: "canvas (mounted 800 600) = Some ?c" by simp
  have h2: "(68 :: nat) \<le> Canvas.width ?c" by simp
  have h3: "list_all nonnegFrame ?ins" by simp
  have v: "targetX (player (runInputs (\<lambda>k. 0) 44100 ?ins (initGame (mounted 800 600)))) = 742"
    by (simp add: runInputs_def update_player handleMove_player initGame_player)
  from player_stays_in_range[OF h1 h2 h3, of "\<lambda>k. 0" 44100] h1 h2 h3 v show ?thesis by blast
qed

text \<open>
  Claim C3 as stated fails on a narrow canvas and for a negative elapsed time.
  In a window 60 pixels wide the reset puts the player at \<open>x = 6\<close>, and the range
  \<open>[10, 2]\<close> is empty.  On 800 pixels, after one step left (target 176) a frame of
  \<open>-1000\<close> ms moves the player away from the target, to \<open>x = 200176\<close>.
\<close>

theorem player_out_of_range_counterexample:
  "canvas (mounted 60 600) = Some \<lparr>Canvas.width = 60, height = 600\<rparr> \<and>
   Player.x (player (runInputs (\<lambda>k. 0) 44100 [] (initGame (mounted 60 600)))) = 6 \<and>
   \<not> inRange \<lparr>Canvas.width = 60, height = 600\<rparr>
       (player (runInputs (\<lambda>k. 0) 44100 [] (initGame (mounted 60 600)))) \<and>
   Player.x (player (runInputs (\<lambda>k. 0) 44100 [Steer PLAYING Left, Frame PLAYING (- 1000)]
       (initGame (mounted 800 600)))) = 200176 \<and>
   \<not> inRange \<lparr>Canvas.width = 800, height = 600\<rparr>
       (player (runInputs (\<lambda>k. 0) 44100 [Steer PLAYING Left, Frame PLAYING (- 1000)]
          (initGame (mounted 800 600))))"
  by (simp add: runInputs_def inRange_def update_player handleMove_player initGame_player
        easePlayer_def Let_def powr_minus)

subsection \<open>The obstacle pass\<close>

lemma sweep_hit:
  "collides (player s) (moveObstacle dt ob) \<Longrightarrow>
   sweepObstacles rnd dt c (ob # rest) s = sweepObstacles rnd dt c rest (afterHit rnd s)"
  by (simp add: Let_def afterHit_def)

lemma sweep_dodge:
  "\<not> collides (player s) (moveObstacle dt ob) \<Longrightarrow>
   Obstacle.y (moveObstacle dt ob) > real (Canvas.height c) \<Longrightarrow>
   sweepObstacles rnd dt c (ob # rest) s = sweepObstacles rnd dt c rest (afterDodge s)"
  by (simp add: Let_def afterDodge_def)

lemma sweep_keep:
  "\<not> collides (player s) (moveObstacle dt ob) \<Longrightarrow>
   \<not> Obstacle.y (moveObstacle dt ob) > real (Canvas.height c) \<Longrightarrow>
   sweepObstacles rnd dt c (ob # rest) s =
     (moveObstacle dt ob # fst (sweepObstacles rnd dt c rest s),
      snd (sweepObstacles rnd dt c rest s))"
  by (simp add: Let_def split: prod.split)

declare sweepObstacles.simps(2) [simp del]

lemma events_playScoreSound:
  "events (playScoreSound s) = events s @ (case audioCtx s of None \<Rightarrow> [] | Some r \<Rightarrow> [ScoreSound])"
  by (simp add: playScoreSound_def emit_def split: option.split)

lemma events_playCrashSound:
  "events (playCrashSound s) = events s @ (case audioCtx s of None \<Rightarrow> [] | Some r \<Rightarrow> [CrashSound])"
  by (simp add: playCrashSound_def emit_def split: option.split)

lemma afterHit_fields [simp]:
  "player (afterHit rnd s) = player s" "canvas (afterHit rnd s) = canvas s"
  "Sim.score (afterHit rnd s) = Sim.score s"
  "length (particles (afterHit rnd s)) = length (particles s) + 25"
  "gameOverCalls (events (afterHit rnd s)) =
     gameOverCalls (events s) @ [OnGameOver \<lfloor>Sim.score s\<rfloor>]"
  "dodged (afterHit rnd s) = dodged s"
  by (simp_all add: afterHit_def gameOverCalls_def dodged_def events_playCrashSound
        split: option.split)

lemma afterDodge_fields [simp]:
  "player (afterDodge s) = player s" "canvas (afterDodge s) = canvas s"
  "Sim.score (afterDodge s) = Sim.score s + 10"
  "particles (afterDodge s) = particles s"
  "gameOverCalls (events (afterDodge s)) = gameOverCalls (events s)"
  "dodged (afterDodge s) = dodged s + 1"
  by (simp_all add: afterDodge_def gameOverCalls_def dodged_def events_playScoreSound
        split: option.split)

lemma sweep_cases:
  obtains (hit) "collides (player s) (moveObstacle dt ob)"
  | (dodge) "\<not> collides (player s) (moveObstacle dt ob)"
      "Obstacle.y (moveObstacle dt ob) > real (Canvas.height c)"
  | (keep) "\<not> collides (player s) (moveObstacle dt ob)"
      "\<not> Obstacle.y (moveObstacle dt ob) > real (Canvas.height c)"
  by blast

lemma sweep_score:
  "Sim.score (snd (sweepObstacles rnd dt c obs s)) - 10 * real (dodged (snd (sweepObstacles rnd dt c obs s)))
     = Sim.score s - 10 * real (dodged s)"
proof (induction obs arbitrary: s)
  case Nil
  show ?case by simp
next
  case (Cons ob rest)
  show ?case
  proof (cases rule: sweep_cases[where s = s and dt = dt and ob = ob and c = c])
    case hit
    then show ?thesis using Cons.IH[of "afterHit rnd s"] by (simp add: sweep_hit)
  next
    case dodge
    then show ?thesis using Cons.IH[of "afterDodge s"] by (simp add: sweep_dodge)
  next
    case keep
    then show ?thesis using Cons.IH[of s] by (simp add: sweep_keep)
  qed
qed

lemma sweep_kept:
  "fst (sweepObstacles rnd dt c obs s) =
     filter (\<lambda>ob. \<not> collides (player s) ob \<and> \<not> Obstacle.y ob > real (Canvas.height c))
       (map (moveObstacle dt) obs)"
proof (induction obs arbitrary: s)
  case Nil
  show ?case by simp
next
  case (Cons ob rest)
  show ?case
  proof (cases rule: sweep_cases[where s = s and dt = dt and ob = ob and c = c])
    case hit
    then show ?thesis using Cons.IH[of "afterHit rnd s"] by (simp add: sweep_hit)
  next
    case dodge
    then show ?thesis using Cons.IH[of "afterDodge s"] by (simp add: sweep_dodge)
  next
    case keep
    then show ?thesis using Cons.IH[of s] by (simp add: sweep_keep)
  qed
qed

lemma sweep_particle_count:
  "length (particles (snd (sweepObstacles rnd dt c obs s))) =
     length (particles s) + 25 * length (filter (collides (player s)) (map (moveObstacle dt) obs))"
proof (induction obs arbitrary: s)
  case Nil
  show ?case by simp
next
  case (Cons ob rest)
  show ?case
  proof (cases rule: sweep_cases[where s = s and dt = dt and ob = ob and c = c])
    case hit
    then show ?thesis using Cons.IH[of "afterHit rnd s"] by (simp add: sweep_hit)
  next
    case dodge
    then show ?thesis using Cons.IH[of "afterDodge s"] by (simp add: sweep_dodge)
  next
    case keep
    then show ?thesis using Cons.IH[of s] by (simp add: sweep_keep)
  qed
qed

lemma indexed_filter_Cons:
  "map f (filter P [0..<Suc n]) =
     (if P 0 then [f 0] else []) @ map (\<lambda>i. f (Suc i)) (filter (\<lambda>i. P (Suc i)) [0..<n])"
proof -
  have "[0..<Suc n] = 0 # map Suc [0..<n]"
    by (simp add: upt_conv_Cons map_Suc_upt del: upt_Suc)
  then show ?thesis by (simp add: filter_map comp_def del: upt_Suc)
qed

lemma sweep_calls:
  "gameOverCalls (events (snd (sweepObstacles rnd dt c obs s))) =
     gameOverCalls (events s) @
     map (\<lambda>i. OnGameOver \<lfloor>Sim.score s + 10 * real (length (filter (passes c (player s))
                 (take i (map (moveObstacle dt) obs))))\<rfloor>)
       (filter (\<lambda>i. collides (player s) (map (moveObstacle dt) obs ! i)) [0..<length obs])"
proof (induction obs arbitrary: s)
  case Nil
  show ?case by simp
next
  case (Cons ob rest)
  show ?case
  proof (cases rule: sweep_cases[where s = s and dt = dt and ob = ob and c = c])
    case hit
    then have np: "\<not> passes c (player s) (moveObstacle dt ob)" by (simp add: passes_def)
    show ?thesis
      using hit np Cons.IH[of "afterHit rnd s"]
      by (simp add: sweep_hit indexed_filter_Cons del: upt_Suc)
  next
    case dodge
    then have p: "passes c (player s) (moveObstacle dt ob)" by (simp add: passes_def)
    show ?thesis
      using dodge p Cons.IH[of "afterDodge s"]
      by (simp add: sweep_dodge indexed_filter_Cons algebra_simps del: upt_Suc)
  next
    case keep
    then have np: "\<not> passes c (player s) (moveObstacle dt ob)" by (simp add: passes_def)
    show ?thesis
      using keep np Cons.IH[of s]
      by (simp add: sweep_keep indexed_filter_Cons del: upt_Suc)
  qed
qed

subsection \<open>Score\<close>

lemma sweep_dodged:
  "dodged (snd (sweepObstacles rnd dt c obs s)) =
     dodged s + length (filter (passes c (player s)) (map (moveObstacle dt) obs))"
proof (induction obs arbitrary: s)
  case Nil
  show ?case by simp
next
  case (Cons ob rest)
  show ?case
  proof (cases rule: sweep_cases[where s = s and dt = dt and ob = ob and c = c])
    case hit
    then show ?thesis using Cons.IH[of "afterHit rnd s"] by (simp add: sweep_hit passes_def)
  next
    case dodge
    then show ?thesis using Cons.IH[of "afterDodge s"] by (simp add: sweep_dodge passes_def)
  next
    case keep
    then show ?thesis using Cons.IH[of s] by (simp add: sweep_keep passes_def)
  qed
qed

lemma dodged_beforeSweep [simp]: "dodged (beforeSweep rnd c dt s) = dodged s"
  by (simp add: dodged_def)

lemma update_events:
  "canvas s = Some c \<Longrightarrow>
   events (update PLAYING rnd dt s) =
     events (snd (sweepObstacles rnd dt c (obstacles (beforeSweep rnd c dt s))
               (beforeSweep rnd c dt s)))"
  by (simp add: update_playing_sweep Let_def)

lemma update_dodged:
  "canvas s = Some c \<Longrightarrow>
   dodged (update PLAYING rnd dt s) =
     dodged s + length (filter (passes c (easePlayer dt (player s))) (swept rnd c dt s))"
  using sweep_dodged[of rnd dt c "obstacles (beforeSweep rnd c dt s)" "beforeSweep rnd c dt s"]
  by (simp add: dodged_def update_events swept_def)

lemma update_score:
  "canvas s = Some c \<Longrightarrow>
   Sim.score (update PLAYING rnd dt s) =
     Sim.score s + 10 * real (length (filter (passes c (easePlayer dt (player s))) (swept rnd c dt s)))
       + 0.015 * dt"
  using sweep_score[of rnd dt c "obstacles (beforeSweep rnd c dt s)" "beforeSweep rnd c dt s"]
    sweep_dodged[of rnd dt c "obstacles (beforeSweep rnd c dt s)" "beforeSweep rnd c dt s"]
  by (simp add: update_playing_sweep Let_def swept_def)

lemma playFrames_Cons:
  "playFrames rnd (dt # dts) s = playFrames rnd dts (update PLAYING rnd dt s)"
  by (simp add: playFrames_def)

lemma playFrames_Nil [simp]: "playFrames rnd [] s = s"
  by (simp add: playFrames_def)

lemma playFrames_score:
  "canvas s = Some c \<Longrightarrow>
   Sim.score (playFrames rnd dts s) - 10 * real (dodged (playFrames rnd dts s)) =
     Sim.score s - 10 * real (dodged s) + 0.015 * sum_list dts"
proof (induction dts arbitrary: s)
  case Nil
  show ?case by simp
next
  case (Cons dt dts)
  have c': "canvas (update PLAYING rnd dt s) = Some c" using Cons.prems by simp
  show ?case
    using Cons.IH[OF c'] update_score[OF Cons.prems, of rnd dt] update_dodged[OF Cons.prems, of rnd dt]
    by (simp add: playFrames_Cons algebra_simps)
qed

lemma initGame_score [simp]: "canvas s = Some c \<Longrightarrow> Sim.score (initGame s) = 0"
  by (simp add: initGame_def Let_def)





























subsection \<open>Collisions in a frame\<close>

lemma update_obstacles:
  "canvas s = Some c \<Longrightarrow>
   obstacles (update PLAYING rnd dt s) =
     filter (\<lambda>ob. \<not> collides (easePlayer dt (player s)) ob \<and>
                   \<not> Obstacle.y ob > real (Canvas.height c))
       (swept rnd c dt s)"
  using sweep_kept[of rnd dt c "obstacles (beforeSweep rnd c dt s)" "beforeSweep rnd c dt s"]
  by (simp add: update_playing_sweep Let_def swept_def)

lemma update_particle_count:
  "canvas s = Some c \<Longrightarrow>
   length (particles (update PLAYING rnd dt s)) =
     length (advanceParticles dt (particles s)) +
     25 * length (filter (collides (easePlayer dt (player s))) (swept rnd c dt s))"
  using sweep_particle_count[of rnd dt c "obstacles (beforeSweep rnd c dt s)" "beforeSweep rnd c dt s"]
  by (simp add: update_playing_sweep Let_def swept_def)

lemma update_calls:
  "canvas s = Some c \<Longrightarrow>
   gameOverCalls (events (update PLAYING rnd dt s)) =
     gameOverCalls (events s) @
     map (\<lambda>i. OnGameOver \<lfloor>Sim.score s + 10 * real (length (filter
                 (passes c (easePlayer dt (player s))) (take i (swept rnd c dt s))))\<rfloor>)
       (filter (\<lambda>i. collides (easePlayer dt (player s)) (swept rnd c dt s ! i))
          [0..<length (swept rnd c dt s)])"
  using sweep_calls[of rnd dt c "obstacles (beforeSweep rnd c dt s)" "beforeSweep rnd c dt s"]
  by (simp add: update_events swept_def)





subsection \<open>A worked game\<close>

lemma afterHit_rng [simp]:
  "rng (afterHit rnd s) =
     rng s + (case audioCtx s of None \<Rightarrow> 0 | Some r \<Rightarrow> (r + 1) div 2) + 75"
  "audioCtx (afterHit rnd s) = audioCtx s"
  by (simp_all add: afterHit_def createExplosion_eq playCrashSound_def emit_def
        split: option.split)

lemma afterDodge_rng [simp]:
  "rng (afterDodge s) = rng s" "audioCtx (afterDodge s) = audioCtx s"
  by (simp_all add: afterDodge_def)

lemma sweep_rng:
  "rng (snd (sweepObstacles rnd dt c obs s)) =
     rng s + ((case audioCtx s of None \<Rightarrow> 0 | Some r \<Rightarrow> (r + 1) div 2) + 75) *
       length (filter (collides (player s)) (map (moveObstacle dt) obs))"
proof (induction obs arbitrary: s)
  case Nil
  show ?case by simp
next
  case (Cons ob rest)
  show ?case
  proof (cases rule: sweep_cases[where s = s and dt = dt and ob = ob and c = c])
    case hit
    then show ?thesis using Cons.IH[of "afterHit rnd s"] by (simp add: sweep_hit)
  next
    case dodge
    then show ?thesis using Cons.IH[of "afterDodge s"] by (simp add: sweep_dodge)
  next
    case keep
    then show ?thesis using Cons.IH[of s] by (simp add: sweep_keep)
  qed
qed

lemma beforeSweep_rng:
  "rng (beforeSweep rnd c dt s) = rng s + (if spawnTimer s - dt \<le> 0 then 3 else 0)"
  by (simp add: beforeSweep_def Let_def spawnObstacle_def)

lemma update_rng:
  "canvas s = Some c \<Longrightarrow>
   rng (update PLAYING rnd dt s) =
     rng s + (if spawnTimer s - dt \<le> 0 then 3 else 0) +
     ((case audioCtx s of None \<Rightarrow> 0 | Some r \<Rightarrow> (r + 1) div 2) + 75) *
       length (filter (collides (easePlayer dt (player s))) (swept rnd c dt s))"
  using sweep_rng[of rnd dt c "obstacles (beforeSweep rnd c dt s)" "beforeSweep rnd c dt s"]
  by (simp add: update_playing_sweep Let_def swept_def beforeSweep_rng)

lemma update_audioCtx [simp]: "audioCtx (update g rnd dt s) = audioCtx s"
proof (cases "g = PLAYING \<and> canvas s \<noteq> None")
  case True
  then obtain c where "canvas s = Some c" by blast
  with True show ?thesis by (simp add: update_playing_sweep Let_def)
next
  case False
  then show ?thesis by (auto simp add: update_idle)
qed

lemma gameOverCalls_simps [simp]:
  "gameOverCalls [] = []"
  "gameOverCalls (e # es) = (if isGameOver e then e # gameOverCalls es else gameOverCalls es)"
  "gameOverCalls (es @ es') = gameOverCalls es @ gameOverCalls es'"
  by (simp_all add: gameOverCalls_def)

lemma easePlayer_at_target: "Player.x p = targetX p \<Longrightarrow> easePlayer dt p = p"
  by (simp add: easePlayer_def Let_def)

lemma swept_first:
  assumes "rnd = halves \<or> rnd = sideways"
  shows "swept rnd \<lparr>Canvas.width = 800, height = 600\<rparr> (833 / 50) (mounted 800 600) =
     [\<lparr>Obstacle.x = 355, y = - 100 + (4 + 15 / 100000 * (833 / 50) + 5 / 4), width = 90,
       height = 45, color = RED_VULN, speed = 4 + 15 / 100000 * (833 / 50) + 5 / 4\<rparr>]"
  using assms
  by (auto simp add: swept_def beforeSweep_spawned moveObstacle_def SPEED_INCREMENT_def
        halves_def sideways_def)

lemma afterFirst_fields:
  assumes "rnd = halves \<or> rnd = sideways"
  shows "canvas (afterFirst rnd) = Some \<lparr>Canvas.width = 800, height = 600\<rparr>"
    and "player (afterFirst rnd) = \<lparr>Player.x = 376, y = 360, width = 48, height = 48,
           color = BASE_BLUE, targetX = 376\<rparr>"
    and "obstacles (afterFirst rnd) =
           [\<lparr>Obstacle.x = 355, y = - 100 + (4 + 15 / 100000 * (833 / 50) + 5 / 4), width = 90,
             height = 45, color = RED_VULN, speed = 4 + 15 / 100000 * (833 / 50) + 5 / 4\<rparr>]"
    and "spawnTimer (afterFirst rnd) = 1000 / (1 + 15 / 100000 / 8 * (833 / 50))"
    and "currentFallSpeed (afterFirst rnd) = 4 + 15 / 100000 * (833 / 50)"
    and "Sim.score (afterFirst rnd) = 15 / 1000 * (833 / 50)"
    and "rng (afterFirst rnd) = 3"
    and "particles (afterFirst rnd) = []"
    and "gameOverCalls (events (afterFirst rnd)) = []"
    and "audioCtx (afterFirst rnd) = None"
proof -
  let ?c = "\<lparr>Canvas.width = 800, height = 600\<rparr>"
  have c: "canvas (mounted 800 600) = Some ?c" by simp
  note e = easePlayer_at_target
  note sw = swept_first[OF assms]
  show "canvas (afterFirst rnd) = Some ?c" by (simp add: afterFirst_def)
  show "player (afterFirst rnd) = \<lparr>Player.x = 376, y = 360, width = 48, height = 48,
           color = BASE_BLUE, targetX = 376\<rparr>"
    by (simp add: afterFirst_def update_player e)
  show "obstacles (afterFirst rnd) =
           [\<lparr>Obstacle.x = 355, y = - 100 + (4 + 15 / 100000 * (833 / 50) + 5 / 4), width = 90,
             height = 45, color = RED_VULN, speed = 4 + 15 / 100000 * (833 / 50) + 5 / 4\<rparr>]"
    by (simp add: afterFirst_def update_obstacles[OF c] e sw collides_def)
  show "spawnTimer (afterFirst rnd) = 1000 / (1 + 15 / 100000 / 8 * (833 / 50))"
    by (simp add: afterFirst_def update_timer[OF c] SPEED_INCREMENT_def)
  show "currentFallSpeed (afterFirst rnd) = 4 + 15 / 100000 * (833 / 50)"
    by (simp add: afterFirst_def update_fallSpeed[OF c] SPEED_INCREMENT_def)
  show "Sim.score (afterFirst rnd) = 15 / 1000 * (833 / 50)"
    by (simp add: afterFirst_def update_score[OF c] e sw passes_def collides_def)
  show "rng (afterFirst rnd) = 3"
    by (simp add: afterFirst_def update_rng[OF c] e sw collides_def)
  show "particles (afterFirst rnd) = []"
    using update_particle_count[OF c, of rnd "833 / 50"]
    by (simp add: afterFirst_def e sw collides_def advanceParticles_def)
  show "gameOverCalls (events (afterFirst rnd)) = []"
    by (simp add: afterFirst_def update_calls[OF c] e sw collides_def)
  show "audioCtx (afterFirst rnd) = None" by (simp add: afterFirst_def)
qed



lemma second_frame_dodges:
  "length (filter (passes \<lparr>Canvas.width = 800, height = 600\<rparr>
       (easePlayer 16660 (player (afterFirst halves))))
     (swept halves \<lparr>Canvas.width = 800, height = 600\<rparr> 16660 (afterFirst halves))) = 2"
  by (simp add: swept_def beforeSweep_spawned afterFirst_fields easePlayer_at_target
        moveObstacle_def collides_def passes_def halves_def SPEED_INCREMENT_def)

subsection \<open>Collision frames\<close>





end
